theory Spec2Isabelle
  imports Main "HOL-Library.Word"
begin

section \<open>Data model of kirjava's constant pool\<close>

text \<open>
  A byte of a buffer is an 8-bit word. A Python \<open>str\<close> is a sequence of code points;
  a code point is a natural number below \<open>0x110000\<close> (Python cannot build any other).
\<close>

type_synonym byte = "8 word"
type_synonym pystr = "nat list"

text \<open>
  A C \<open>int\<close> (a \<open>cdef int\<close> field or variable) is a 32-bit word, read in two's
  complement by \<open>sint\<close>; its arithmetic wraps around. A Python integer is unbounded.
  Storing a Python integer into a C \<open>int\<close> raises \<open>OverflowError\<close> when it does not fit.
\<close>

type_synonym c_int = "32 word"

definition fits_int :: "int \<Rightarrow> bool" where
  "fits_int n = (- 2147483648 \<le> n \<and> n \<le> 2147483647)"

text \<open>
  The subclasses of \<open>ConstantInfo\<close>, as values. \<open>Index\<close> is the special constant for a
  pool position that holds nothing; its field \<open>index\<close> is a C \<open>int\<close>. The numeric payloads are the C fields of the source
  (\<open>int\<close>, \<open>float\<close>, \<open>long long\<close>, \<open>double\<close>), kept as their bit patterns. \<open>Class.type\<close>
  and \<open>MethodType.argument_types/return_type\<close> are computed from the name and the
  descriptor by the descriptor parser and carry no information of their own.
  \<open>MethodHandle.reference_kind\<close> and \<open>Dynamic.bootstrap_method_attr_index\<close> are C
  \<open>int\<close>s too; \<open>dereference\<close> fills them with what \<open>read\<close> unpacked, a \<open>u8\<close> and a
  \<open>u16\<close>, which always fit, so they are kept as the integers unpacked.
\<close>

text \<open>
  Modelled from the spec: equality and hashing of constants, which the dictionaries of
  the pool use, are defined in the base class \<open>abc.constant.Constant\<close>, outside the
  source files this theory is written from. The spec makes them structural on the
  resolved form; that is the equality of this datatype.
\<close>

datatype ConstantInfo =
    Index c_int
  | UTF8 pystr
  | Integer "32 word"
  | Float "32 word"
  | Long "64 word"
  | Double "64 word"
  | Class pystr
  | String pystr
  | FieldRef ConstantInfo ConstantInfo
  | MethodRef ConstantInfo ConstantInfo
  | InterfaceMethodRef ConstantInfo ConstantInfo
  | NameAndType pystr pystr
  | MethodHandle int ConstantInfo
  | MethodType pystr
  | Dynamic int ConstantInfo
  | InvokeDynamic int ConstantInfo
  | Module pystr
  | Package pystr

text \<open>The class attribute \<open>wide\<close>, read off an instance (\<open>constant.wide\<close>).\<close>

fun wide :: "ConstantInfo \<Rightarrow> bool" where
  "wide (Long v) = True"
| "wide (Double v) = True"
| "wide c = False"

text \<open>
  The exceptions of the source, named after the error kinds of the specification; the
  Python exception raised is given with each.
\<close>

datatype error =
    Truncated                \<comment> \<open>\<open>struct.error\<close> / \<open>ValueError\<close>: a read got fewer bytes than it unpacks\<close>
  | UnknownConstantTag nat   \<comment> \<open>\<open>ValueError("Unknown constant tag: %i.")\<close>\<close>
  | VersionTooLow nat        \<comment> \<open>\<open>ValueError("Constant %r is not supported in version %s.")\<close>, with the tag\<close>
  | KindMismatch             \<comment> \<open>\<open>TypeError("Expected type %r, got %r.")\<close> of a \<open>dereference\<close>\<close>
  | IndexNotDefined int      \<comment> \<open>\<open>IndexError("Constant pool index %i is not defined.")\<close>\<close>
  | KeyError                 \<comment> \<open>\<open>KeyError\<close> of a dictionary subscript\<close>
  | InvalidIndexType         \<comment> \<open>\<open>TypeError("Type %r is not a valid index for %r.")\<close>\<close>
  | NotInPool int            \<comment> \<open>\<open>ValueError("Index %i not in constant pool.")\<close>\<close>
  | NotUTF8 int              \<comment> \<open>\<open>TypeError("Index %i is not a valid UTF-8 constant.")\<close>\<close>
  | OverflowError            \<comment> \<open>\<open>OverflowError\<close>: a Python integer that does not fit a C \<open>int\<close>\<close>
  | LengthOutOfRange         \<comment> \<open>\<open>struct.error\<close>: \<open>pack_H\<close> of a number above 65535\<close>
  | UnicodeEncodeError       \<comment> \<open>\<open>str.encode("utf-8")\<close> on a surrogate code point\<close>
  | WrongInfoShape           \<comment> \<open>\<open>TypeError\<close>: subscript of an \<open>int\<close> info\<close>
  | StrNotCallable           \<comment> \<open>\<open>TypeError\<close>: a string literal applied to a tuple, in \<open>MethodHandle.dereference\<close>\<close>
  | NotDereferenceable       \<comment> \<open>\<open>Exception("Tried to derefence ... constant.")\<close>\<close>
  | IllegalInstruction       \<comment> \<open>\<open>ValueError("Cannot add a ... instruction directly, ...")\<close>\<close>
  | ExpectedInstruction      \<comment> \<open>\<open>ValueError("Expected an instruction, got %r.")\<close>\<close>
  | InstantiationFailed      \<comment> \<open>whatever calling an instruction class without operands raises\<close>

text \<open>Python values that reach the pool's dynamically typed entry points.\<close>

datatype pyobj = PyInt int | PyStr pystr | PyConst ConstantInfo

subsection \<open>The pool\<close>

text \<open>
  \<open>Index(n)\<close>, as Python code calls it: \<open>Index.__init__\<close> stores \<open>n\<close> into the C field.
  \<open>Index.value\<close> reads the field back as a Python integer, \<open>sint\<close>.
\<close>

definition new_Index :: "int \<Rightarrow> error + ConstantInfo" where
  "new_Index n = (if fits_int n then Inr (Index (word_of_int n)) else Inl OverflowError)"

text \<open>
  \<open>cdef int _index; cdef dict _forward_entries; cdef dict _backward_entries\<close>, the
  first under the name the specification gives it. The keys of the forward dictionary
  and the values of the backward dictionary are Python integers.
\<close>

record ConstantPool =
  next_index :: c_int
  forward_entries :: "int \<rightharpoonup> ConstantInfo"
  backward_entries :: "ConstantInfo \<rightharpoonup> int"

text \<open>\<open>ConstantPool.__init__\<close>\<close>

definition init :: ConstantPool where
  "init = \<lparr>next_index = 1, forward_entries = Map.empty, backward_entries = Map.empty\<rparr>"

text \<open>\<open>ConstantPool.__len__\<close>: the number of keys of the forward dictionary.\<close>

definition len :: "ConstantPool \<Rightarrow> nat" where
  "len p = card (dom (forward_entries p))"

text \<open>\<open>ConstantPool.__contains__\<close>\<close>

fun contains :: "ConstantPool \<Rightarrow> pyobj \<Rightarrow> bool" where
  "contains p (PyInt i) = (forward_entries p i \<noteq> None)"
| "contains p (PyConst c) = (backward_entries p c \<noteq> None)"
| "contains p (PyStr s) = False"

text \<open>\<open>ConstantPool.__getitem__\<close>\<close>

fun getitem :: "ConstantPool \<Rightarrow> pyobj \<Rightarrow> error + pyobj" where
  "getitem p (PyInt i) =
     (case forward_entries p i of
        Some c \<Rightarrow> Inr (PyConst c)
      | None \<Rightarrow> (case new_Index i of Inl e \<Rightarrow> Inl e | Inr x \<Rightarrow> Inr (PyConst x)))"
| "getitem p (PyConst (Index n)) = Inr (PyInt (sint n))"
| "getitem p (PyConst c) =
     (case backward_entries p c of
        Some i \<Rightarrow> Inr (PyInt i)
      | None \<Rightarrow> Inl KeyError)"
| "getitem p (PyStr s) = Inl InvalidIndexType"

text \<open>
  \<open>ConstantPool.__setitem__\<close>: the exception raised, if any, and the pool after the call.
  The body has no \<open>raise\<close>. An \<open>Index\<close> item and an item that is no constant leave the
  pool as it is; any other constant is stored in both dictionaries. Then, if \<open>index\<close> is
  not below \<open>_index\<close>, the Python integer \<open>index + 1\<close> is stored into the C \<open>int\<close>
  \<open>_index\<close>, which raises \<open>OverflowError\<close> when it does not fit, and \<open>_index += 1\<close> for a
  wide item is C arithmetic.
\<close>

fun setitem :: "ConstantPool \<Rightarrow> int \<Rightarrow> pyobj \<Rightarrow> error option \<times> ConstantPool" where
  "setitem p i (PyConst (Index n)) = (None, p)"
| "setitem p i (PyConst c) =
     (let p1 = p\<lparr>forward_entries := (forward_entries p)(i \<mapsto> c),
                 backward_entries := (backward_entries p)(c \<mapsto> i)\<rparr>
      in if i \<ge> sint (next_index p)
         then (if fits_int (i + 1)
               then (None, p1\<lparr>next_index := (if wide c then word_of_int (i + 1) + 1
                                                else word_of_int (i + 1))\<rparr>)
               else (Some OverflowError, p1))
         else (None, p1))"
| "setitem p i (PyInt n) = (None, p)"
| "setitem p i (PyStr s) = (None, p)"

text \<open>\<open>ConstantPool.get(index, default=None, do_raise=False)\<close>\<close>

definition get :: "ConstantPool \<Rightarrow> int \<Rightarrow> ConstantInfo option \<Rightarrow> bool \<Rightarrow> error + ConstantInfo" where
  "get p i dflt do_raise =
     (case forward_entries p i of
        Some c \<Rightarrow> Inr c
      | None \<Rightarrow>
          (case dflt of
             Some d \<Rightarrow> Inr d
           | None \<Rightarrow> if do_raise then Inl (IndexNotDefined i) else new_Index i))"

text \<open>\<open>ConstantPool.get_utf8(index, default=None)\<close>\<close>

definition get_utf8 :: "ConstantPool \<Rightarrow> int \<Rightarrow> pystr option \<Rightarrow> error + pystr" where
  "get_utf8 p i dflt =
     (case forward_entries p i of
        None \<Rightarrow> (case dflt of Some d \<Rightarrow> Inr d | None \<Rightarrow> Inl (NotInPool i))
      | Some (UTF8 s) \<Rightarrow> Inr s
      | Some c \<Rightarrow> (case dflt of Some d \<Rightarrow> Inr d | None \<Rightarrow> Inl (NotUTF8 i)))"

text \<open>\<open>ConstantPool.clear\<close>\<close>

definition clear :: "ConstantPool \<Rightarrow> ConstantPool" where
  "clear p = p\<lparr>next_index := 1, forward_entries := Map.empty, backward_entries := Map.empty\<rparr>"

text \<open>
  \<open>ConstantPool.add(constant: Union[ConstantInfo, str])\<close>: the index, and the pool after
  the call. The two \<open>self._index += 1\<close> are C arithmetic.
\<close>

datatype constant_or_str = Str pystr | Const ConstantInfo

fun coerce :: "constant_or_str \<Rightarrow> ConstantInfo" where
  "coerce (Str s) = UTF8 s"
| "coerce (Const c) = c"

fun add :: "ConstantPool \<Rightarrow> constant_or_str \<Rightarrow> int \<times> ConstantPool" where
  "add p (Const (Index n)) = (sint n, p)"
| "add p a =
     (let c = coerce a in
      case backward_entries p c of
        Some i \<Rightarrow> (i, p)
      | None \<Rightarrow>
          (sint (next_index p),
           p\<lparr>forward_entries := (forward_entries p)(sint (next_index p) \<mapsto> c),
             backward_entries := (backward_entries p)(c \<mapsto> sint (next_index p)),
             next_index := (if wide c then next_index p + 1 + 1 else next_index p + 1)\<rparr>))"

text \<open>\<open>add_utf8\<close>, \<open>add_class\<close>, \<open>add_string\<close>\<close>

definition add_utf8 :: "ConstantPool \<Rightarrow> pystr \<Rightarrow> int \<times> ConstantPool" where
  "add_utf8 p v = add p (Str v)"

definition add_class :: "ConstantPool \<Rightarrow> pystr \<Rightarrow> int \<times> ConstantPool" where
  "add_class p n = add p (Const (Class n))"

definition add_string :: "ConstantPool \<Rightarrow> pystr \<Rightarrow> int \<times> ConstantPool" where
  "add_string p v = add p (Const (String v))"

section \<open>The binary codec\<close>

text \<open>
  Modelled from the spec: the packers and unpackers of \<open>classfile/_struct\<close>, which are
  defined outside the source files this theory is written from. The spec makes them
  big-endian; an unpacker fails when it is handed fewer bytes than it needs, and
  \<open>pack_H\<close> when the number does not fit 16 bits. A buffer being read is the list of the bytes not
  yet consumed; \<open>buffer.read(n)\<close> takes up to \<open>n\<close> of them. A buffer being written is the
  list of the bytes emitted so far.
\<close>

definition be_nat :: "byte list \<Rightarrow> nat" where
  "be_nat bs = foldl (\<lambda>a b. a * 256 + unat b) 0 bs"

definition unpack_H :: "byte list \<Rightarrow> error + nat" where
  "unpack_H bs = (if length bs = 2 then Inr (be_nat bs) else Inl Truncated)"

definition unpack_HH :: "byte list \<Rightarrow> error + nat \<times> nat" where
  "unpack_HH bs =
     (if length bs = 4 then Inr (be_nat (take 2 bs), be_nat (drop 2 bs)) else Inl Truncated)"

definition unpack_BH :: "byte list \<Rightarrow> error + nat \<times> nat" where
  "unpack_BH bs =
     (if length bs = 3 then Inr (be_nat (take 1 bs), be_nat (drop 1 bs)) else Inl Truncated)"

definition unpack_32 :: "byte list \<Rightarrow> error + 32 word" where
  "unpack_32 bs = (if length bs = 4 then Inr (of_nat (be_nat bs)) else Inl Truncated)"

definition unpack_64 :: "byte list \<Rightarrow> error + 64 word" where
  "unpack_64 bs = (if length bs = 8 then Inr (of_nat (be_nat bs)) else Inl Truncated)"

definition pack_H :: "nat \<Rightarrow> error + byte list" where
  "pack_H n =
     (if n \<le> 65535 then Inr [of_nat (n div 256), of_nat (n mod 256)]
      else Inl LengthOutOfRange)"

subsection \<open>MUTF-8\<close>

text \<open>
  \<open>str.encode("utf-8")\<close> of Python: one to four bytes for each code point, and
  \<open>UnicodeEncodeError\<close> when the string holds a surrogate.
\<close>

definition surrogate :: "nat \<Rightarrow> bool" where
  "surrogate c = (0xD800 \<le> c \<and> c \<le> 0xDFFF)"

text \<open>
  The code points of a Python string that holds no surrogate. A Python string is a
  sequence of code points, not of UTF-16 units: a surrogate in it is never half of a
  pair, and \<open>encode\<close> refuses every one.
\<close>

definition valid_cp :: "nat \<Rightarrow> bool" where
  "valid_cp c = (c < 0x110000 \<and> \<not> surrogate c)"

definition encode_cp :: "nat \<Rightarrow> byte list" where
  "encode_cp c =
     (if c < 0x80 then [of_nat c]
      else if c < 0x800 then [of_nat (0xC0 + c div 64), of_nat (0x80 + c mod 64)]
      else if c < 0x10000 then
        [of_nat (0xE0 + c div 4096), of_nat (0x80 + c div 64 mod 64), of_nat (0x80 + c mod 64)]
      else
        [of_nat (0xF0 + c div 262144), of_nat (0x80 + c div 4096 mod 64),
         of_nat (0x80 + c div 64 mod 64), of_nat (0x80 + c mod 64)])"

definition utf8_encode :: "pystr \<Rightarrow> error + byte list" where
  "utf8_encode s =
     (if list_ex surrogate s then Inl UnicodeEncodeError else Inr (concat (map encode_cp s)))"

text \<open>
  \<open>bytes.decode("utf-8", errors="ignore")\<close> of Python: a well-formed sequence (a lead
  byte and the continuation bytes the Unicode standard allows after it) gives its code
  point; at any other byte the decoder drops bytes and goes on. Dropping the one byte at
  hand gives the same output as CPython's dropping of the ill-formed prefix: the further
  bytes of such a prefix are continuation bytes, which are dropped one by one as well.
\<close>

definition cont :: "byte \<Rightarrow> bool" where
  "cont b = (0x80 \<le> unat b \<and> unat b \<le> 0xBF)"

definition second_ok :: "byte \<Rightarrow> byte \<Rightarrow> bool" where
  "second_ok b0 b1 =
     (if unat b0 = 0xE0 then 0xA0 \<le> unat b1 \<and> unat b1 \<le> 0xBF
      else if unat b0 = 0xED then 0x80 \<le> unat b1 \<and> unat b1 \<le> 0x9F
      else if unat b0 = 0xF0 then 0x90 \<le> unat b1 \<and> unat b1 \<le> 0xBF
      else if unat b0 = 0xF4 then 0x80 \<le> unat b1 \<and> unat b1 \<le> 0x8F
      else cont b1)"

fun utf8_decode_ignore :: "byte list \<Rightarrow> pystr" where
  "utf8_decode_ignore [] = []"
| "utf8_decode_ignore (b0 # bs) =
     (if unat b0 < 0x80 then unat b0 # utf8_decode_ignore bs
      else if 0xC2 \<le> unat b0 \<and> unat b0 \<le> 0xDF then
        (case bs of
           b1 # r1 \<Rightarrow>
             if cont b1
             then ((unat b0 - 0xC0) * 64 + (unat b1 - 0x80)) # utf8_decode_ignore r1
             else utf8_decode_ignore bs
         | _ \<Rightarrow> utf8_decode_ignore bs)
      else if 0xE0 \<le> unat b0 \<and> unat b0 \<le> 0xEF then
        (case bs of
           b1 # b2 # r2 \<Rightarrow>
             if second_ok b0 b1 \<and> cont b2
             then ((unat b0 - 0xE0) * 4096 + (unat b1 - 0x80) * 64 + (unat b2 - 0x80))
                    # utf8_decode_ignore r2
             else utf8_decode_ignore bs
         | _ \<Rightarrow> utf8_decode_ignore bs)
      else if 0xF0 \<le> unat b0 \<and> unat b0 \<le> 0xF4 then
        (case bs of
           b1 # b2 # b3 # r3 \<Rightarrow>
             if second_ok b0 b1 \<and> cont b2 \<and> cont b3
             then ((unat b0 - 0xF0) * 262144 + (unat b1 - 0x80) * 4096
                     + (unat b2 - 0x80) * 64 + (unat b3 - 0x80))
                    # utf8_decode_ignore r3
             else utf8_decode_ignore bs
         | _ \<Rightarrow> utf8_decode_ignore bs)
      else utf8_decode_ignore bs)"

text \<open>
  \<open>bytes.replace(old, new)\<close> of Python: the occurrences of \<open>old\<close> are found from the
  left and do not overlap; an empty \<open>old\<close> matches before every byte and at the end.
\<close>

function bytes_replace :: "byte list \<Rightarrow> byte list \<Rightarrow> byte list \<Rightarrow> byte list" where
  "bytes_replace old new [] = (if old = [] then new else [])"
| "bytes_replace old new (b # bs) =
     (if old = [] then new @ b # bytes_replace old new bs
      else if take (length old) (b # bs) = old
      then new @ bytes_replace old new (drop (length old) (b # bs))
      else b # bytes_replace old new bs)"
  by pat_completeness auto
termination
  by (relation "measure (\<lambda>(old, new, bs). length bs)") (auto simp: neq_Nil_conv)

text \<open>\<open>UTF8.read\<close>: the constant, and the buffer after it.\<close>

definition UTF8_read :: "byte list \<Rightarrow> error + ConstantInfo \<times> byte list" where
  "UTF8_read buffer =
     (case unpack_H (take 2 buffer) of
        Inl e \<Rightarrow> Inl e
      | Inr n \<Rightarrow>
          Inr (UTF8 (utf8_decode_ignore
                       (bytes_replace [0xC0, 0x80] [0x00] (take n (drop 2 buffer)))),
               drop n (drop 2 buffer)))"

text \<open>\<open>UTF8.write\<close> of the constant \<open>UTF8 v\<close>: the buffer after the two writes.\<close>

definition UTF8_write :: "pystr \<Rightarrow> byte list \<Rightarrow> error + byte list" where
  "UTF8_write v buffer =
     (case utf8_encode v of
        Inl e \<Rightarrow> Inl e
      | Inr bs \<Rightarrow>
          (let val = bytes_replace [0x00] [0xC0, 0x80] bs in
           case pack_H (length val) of
             Inl e \<Rightarrow> Inl e
           | Inr h \<Rightarrow> Inr (buffer @ h @ val)))"


section \<open>The constant classes\<close>

text \<open>The classes listed in \<open>CONSTANTS\<close>, as values: \<open>read\<close> and \<open>dereference\<close> are class methods.\<close>

datatype cls =
    cUTF8 | cInteger | cFloat | cLong | cDouble | cClass | cString
  | cFieldRef | cMethodRef | cInterfaceMethodRef | cNameAndType
  | cMethodHandle | cMethodType | cDynamic | cInvokeDynamic | cModule | cPackage

definition CONSTANTS :: "cls list" where
  "CONSTANTS =
     [cUTF8, cInteger, cFloat, cLong, cDouble, cClass, cString, cFieldRef, cMethodRef,
      cInterfaceMethodRef, cNameAndType, cMethodHandle, cMethodType, cDynamic,
      cInvokeDynamic, cModule, cPackage]"

fun tag :: "cls \<Rightarrow> nat" where
  "tag cUTF8 = 1"
| "tag cInteger = 3"
| "tag cFloat = 4"
| "tag cLong = 5"
| "tag cDouble = 6"
| "tag cClass = 7"
| "tag cString = 8"
| "tag cFieldRef = 9"
| "tag cMethodRef = 10"
| "tag cInterfaceMethodRef = 11"
| "tag cNameAndType = 12"
| "tag cMethodHandle = 15"
| "tag cMethodType = 16"
| "tag cDynamic = 17"
| "tag cInvokeDynamic = 18"
| "tag cModule = 19"
| "tag cPackage = 20"

fun cls_wide :: "cls \<Rightarrow> bool" where
  "cls_wide cLong = True"
| "cls_wide cDouble = True"
| "cls_wide c = False"

text \<open>
  Modelled from the spec: the class \<open>Version\<close>, which is defined outside the source
  files this theory is written from. A version is its major and minor number, ordered
  by the major number first. Every
  \<open>since\<close> has minor number 0, so \<open>since > version\<close> holds exactly when the major number
  of \<open>since\<close> exceeds that of the file.
\<close>

type_synonym Version = "nat \<times> nat"

definition version_gt :: "Version \<Rightarrow> Version \<Rightarrow> bool" where
  "version_gt a b = (fst a > fst b \<or> (fst a = fst b \<and> snd a > snd b))"

fun since :: "cls \<Rightarrow> Version" where
  "since cMethodHandle = (51, 0)"
| "since cMethodType = (51, 0)"
| "since cDynamic = (55, 0)"
| "since cInvokeDynamic = (51, 0)"
| "since cModule = (53, 0)"
| "since cPackage = (53, 0)"
| "since c = (45, 0)"

text \<open>\<open>_constant_map = {constant.tag: constant for constant in CONSTANTS}\<close>\<close>

definition constant_map :: "nat \<rightharpoonup> cls" where
  "constant_map = foldl (\<lambda>m c. m(tag c \<mapsto> c)) Map.empty CONSTANTS"

text \<open>
  What a class's \<open>read\<close> returns: the constant itself, or the info to dereference it
  with: one pool index, or a pair whose second (for some classes also first) component
  is a pool index.
\<close>

datatype info = Info1 int | Info2 int int

datatype read_result = Resolved ConstantInfo | Deferred info

fun read_cls :: "cls \<Rightarrow> byte list \<Rightarrow> error + read_result \<times> byte list" where
  "read_cls cUTF8 buffer =
     (case UTF8_read buffer of Inl e \<Rightarrow> Inl e | Inr (c, rest) \<Rightarrow> Inr (Resolved c, rest))"
| "read_cls cInteger buffer =
     (case unpack_32 (take 4 buffer) of
        Inl e \<Rightarrow> Inl e | Inr v \<Rightarrow> Inr (Resolved (Integer v), drop 4 buffer))"
| "read_cls cFloat buffer =
     (case unpack_32 (take 4 buffer) of
        Inl e \<Rightarrow> Inl e | Inr v \<Rightarrow> Inr (Resolved (Float v), drop 4 buffer))"
| "read_cls cLong buffer =
     (case unpack_64 (take 8 buffer) of
        Inl e \<Rightarrow> Inl e | Inr v \<Rightarrow> Inr (Resolved (Long v), drop 8 buffer))"
| "read_cls cDouble buffer =
     (case unpack_64 (take 8 buffer) of
        Inl e \<Rightarrow> Inl e | Inr v \<Rightarrow> Inr (Resolved (Double v), drop 8 buffer))"
| "read_cls cMethodHandle buffer =
     (case unpack_BH (take 3 buffer) of
        Inl e \<Rightarrow> Inl e
      | Inr (a, b) \<Rightarrow> Inr (Deferred (Info2 (int a) (int b)), drop 3 buffer))"
| "read_cls c buffer =
     (if c \<in> {cClass, cString, cMethodType, cModule, cPackage}
      then (case unpack_H (take 2 buffer) of
              Inl e \<Rightarrow> Inl e
            | Inr a \<Rightarrow> Inr (Deferred (Info1 (int a)), drop 2 buffer))
      else (case unpack_HH (take 4 buffer) of
              Inl e \<Rightarrow> Inl e
            | Inr (a, b) \<Rightarrow> Inr (Deferred (Info2 (int a) (int b)), drop 4 buffer)))"

text \<open>
  The \<open>isinstance\<close> tests of the \<open>dereference\<close> methods. \<open>InterfaceMethodRef\<close> is a
  subclass of \<open>MethodRef\<close>.
\<close>

fun is_Index :: "ConstantInfo \<Rightarrow> bool" where
  "is_Index (Index n) = True"
| "is_Index c = False"

fun isinstance_UTF8 :: "ConstantInfo \<Rightarrow> bool" where
  "isinstance_UTF8 (UTF8 s) = True"
| "isinstance_UTF8 c = False"

fun isinstance_Class :: "ConstantInfo \<Rightarrow> bool" where
  "isinstance_Class (Class n) = True"
| "isinstance_Class c = False"

fun isinstance_NameAndType :: "ConstantInfo \<Rightarrow> bool" where
  "isinstance_NameAndType (NameAndType n d) = True"
| "isinstance_NameAndType c = False"

fun isinstance_FieldRef :: "ConstantInfo \<Rightarrow> bool" where
  "isinstance_FieldRef (FieldRef c n) = True"
| "isinstance_FieldRef c = False"

fun isinstance_MethodRef :: "ConstantInfo \<Rightarrow> bool" where
  "isinstance_MethodRef (MethodRef c n) = True"
| "isinstance_MethodRef (InterfaceMethodRef c n) = True"
| "isinstance_MethodRef c = False"

text \<open>A referent is present and passes an \<open>isinstance\<close> test, or is present and fails it.\<close>

definition present_as :: "(ConstantInfo \<Rightarrow> bool) \<Rightarrow> (int \<rightharpoonup> ConstantInfo) \<Rightarrow> int \<Rightarrow> bool" where
  "present_as P lookups i = (case lookups i of Some c \<Rightarrow> P c | None \<Rightarrow> False)"

definition wrong_kind :: "(ConstantInfo \<Rightarrow> bool) \<Rightarrow> (int \<rightharpoonup> ConstantInfo) \<Rightarrow> int \<Rightarrow> bool" where
  "wrong_kind P lookups i = (case lookups i of Some c \<Rightarrow> \<not> P c | None \<Rightarrow> False)"

text \<open>
  The \<open>dereference\<close> methods. \<open>Inr None\<close> is the \<open>None\<close> the source returns when a
  constant cannot be dereferenced yet. The classes whose referents are \<open>UTF8\<close>
  constants have one test only, \<open>not isinstance(name, UTF8)\<close>, which an absent referent
  (\<open>None\<close>) fails like any constant of another class.
\<close>

definition deref_utf8 ::
  "(int \<rightharpoonup> ConstantInfo) \<Rightarrow> info \<Rightarrow> (pystr \<Rightarrow> ConstantInfo) \<Rightarrow> error + ConstantInfo option" where
  "deref_utf8 lookups info mk =
     (case info of
        Info1 a \<Rightarrow>
          (case lookups a of
             Some (UTF8 s) \<Rightarrow> Inr (Some (mk s))
           | _ \<Rightarrow> Inl KindMismatch)
      | Info2 a b \<Rightarrow> Inl KindMismatch)"

definition deref_ref ::
  "(int \<rightharpoonup> ConstantInfo) \<Rightarrow> info \<Rightarrow> (ConstantInfo \<Rightarrow> ConstantInfo \<Rightarrow> ConstantInfo)
     \<Rightarrow> error + ConstantInfo option" where
  "deref_ref lookups info mk =
     (case info of
        Info1 a \<Rightarrow> Inl WrongInfoShape
      | Info2 a b \<Rightarrow>
          (case lookups a of
             None \<Rightarrow> Inr None
           | Some class_ \<Rightarrow>
               if \<not> isinstance_Class class_ then Inl KindMismatch
               else (case lookups b of
                       None \<Rightarrow> Inr None
                     | Some name_and_type \<Rightarrow>
                         if \<not> isinstance_NameAndType name_and_type then Inl KindMismatch
                         else Inr (Some (mk class_ name_and_type)))))"

definition deref_dynamic ::
  "(int \<rightharpoonup> ConstantInfo) \<Rightarrow> info \<Rightarrow> (int \<Rightarrow> ConstantInfo \<Rightarrow> ConstantInfo)
     \<Rightarrow> error + ConstantInfo option" where
  "deref_dynamic lookups info mk =
     (case info of
        Info1 a \<Rightarrow> Inl WrongInfoShape
      | Info2 a b \<Rightarrow>
          (case lookups b of
             None \<Rightarrow> Inr None
           | Some name_and_type \<Rightarrow>
               if \<not> isinstance_NameAndType name_and_type then Inl KindMismatch
               else Inr (Some (mk a name_and_type))))"

fun dereference :: "cls \<Rightarrow> (int \<rightharpoonup> ConstantInfo) \<Rightarrow> info \<Rightarrow> error + ConstantInfo option" where
  "dereference cClass lookups info = deref_utf8 lookups info Class"
| "dereference cString lookups info = deref_utf8 lookups info String"
| "dereference cMethodType lookups info = deref_utf8 lookups info MethodType"
| "dereference cModule lookups info = deref_utf8 lookups info Module"
| "dereference cPackage lookups info = deref_utf8 lookups info Package"
| "dereference cNameAndType lookups info =
     (case info of
        Info1 a \<Rightarrow> Inl WrongInfoShape
      | Info2 a b \<Rightarrow>
          (case lookups a of
             Some (UTF8 name) \<Rightarrow>
               (case lookups b of
                  Some (UTF8 descriptor) \<Rightarrow> Inr (Some (NameAndType name descriptor))
                | _ \<Rightarrow> Inl KindMismatch)
           | _ \<Rightarrow> Inl KindMismatch))"
| "dereference cFieldRef lookups info = deref_ref lookups info FieldRef"
| "dereference cMethodRef lookups info = deref_ref lookups info MethodRef"
| "dereference cInterfaceMethodRef lookups info = deref_ref lookups info InterfaceMethodRef"
| "dereference cMethodHandle lookups info =
     (case info of
        Info1 a \<Rightarrow> Inl WrongInfoShape
      | Info2 a b \<Rightarrow>
          (case lookups b of
             None \<Rightarrow> Inr None
           | Some reference \<Rightarrow>
               if \<not> isinstance_FieldRef reference \<and> \<not> isinstance_MethodRef reference
               then Inl StrNotCallable
               else Inr (Some (MethodHandle a reference))))"
| "dereference cDynamic lookups info = deref_dynamic lookups info Dynamic"
| "dereference cInvokeDynamic lookups info = deref_dynamic lookups info InvokeDynamic"
| "dereference c lookups info = Inl NotDereferenceable"

section \<open>Reading a pool\<close>

text \<open>
  The first loop of \<open>ConstantPool.read\<close>, \<open>while offset < constants_count\<close>: the offset,
  the buffer, the pool and the list \<open>uncomputed\<close> when the loop is left.
\<close>

type_synonym uncomputed = "(int \<times> cls \<times> info) list"

function read_loop ::
  "Version \<Rightarrow> int \<Rightarrow> int \<Rightarrow> byte list \<Rightarrow> ConstantPool \<Rightarrow> uncomputed
     \<Rightarrow> error + int \<times> byte list \<times> ConstantPool \<times> uncomputed" where
  "read_loop version constants_count offset buffer pool uncomputed =
     (if offset < constants_count then
        (case buffer of
           [] \<Rightarrow> Inl Truncated
         | t # buffer1 \<Rightarrow>
             (case constant_map (unat t) of
                None \<Rightarrow> Inl (UnknownConstantTag (unat t))
              | Some constant \<Rightarrow>
                  if version_gt (since constant) version then Inl (VersionTooLow (unat t))
                  else
                    (case read_cls constant buffer1 of
                       Inl e \<Rightarrow> Inl e
                     | Inr (Resolved c, buffer2) \<Rightarrow>
                         read_loop version constants_count
                           (if cls_wide constant then offset + 1 + 1 else offset + 1) buffer2
                           (pool\<lparr>forward_entries := (forward_entries pool)(offset \<mapsto> c),
                                 backward_entries := (backward_entries pool)(c \<mapsto> offset)\<rparr>)
                           uncomputed
                     | Inr (Deferred info, buffer2) \<Rightarrow>
                         read_loop version constants_count
                           (if cls_wide constant then offset + 1 + 1 else offset + 1) buffer2
                           pool (uncomputed @ [(offset, constant, info)]))))
      else Inr (offset, buffer, pool, uncomputed))"
  by pat_completeness auto
termination
  by (relation "measure (\<lambda>(version, constants_count, offset, buffer, pool, uncomputed).
                   nat (constants_count - offset))") auto

declare read_loop.simps [simp del]

text \<open>
  The second loop, \<open>while uncomputed\<close>. Nothing bounds the number of its rounds, so it is
  a partial function: \<open>None\<close> is the run that never leaves the loop.
\<close>

partial_function (option) fixup :: "uncomputed \<Rightarrow> ConstantPool \<Rightarrow> (error + ConstantPool) option" where
  "fixup uncomputed pool =
     (case uncomputed of
        [] \<Rightarrow> Some (Inr pool)
      | (offset, constant, info) # rest \<Rightarrow>
          (case dereference constant (forward_entries pool) info of
             Inl e \<Rightarrow> Some (Inl e)
           | Inr None \<Rightarrow> fixup (rest @ [(offset, constant, info)]) pool
           | Inr (Some val) \<Rightarrow>
               fixup rest
                 (pool\<lparr>forward_entries := (forward_entries pool)(offset \<mapsto> val),
                       backward_entries := (backward_entries pool)(val \<mapsto> offset)\<rparr>)))"

text \<open>
  \<open>ConstantPool.read(version, buffer)\<close>: the pool, and the buffer after it. The offset of
  the first loop is a C \<open>int\<close> as well; it starts at 1 and never exceeds the count, a
  \<open>u16\<close>, by more than 1, so it is counted in the integers and stored into \<open>_index\<close> at
  the end.
\<close>

definition read :: "Version \<Rightarrow> byte list \<Rightarrow> (error + ConstantPool \<times> byte list) option" where
  "read version buffer =
     (case unpack_H (take 2 buffer) of
        Inl e \<Rightarrow> Some (Inl e)
      | Inr constants_count \<Rightarrow>
          (case read_loop version (int constants_count) 1 (drop 2 buffer) init [] of
             Inl e \<Rightarrow> Some (Inl e)
           | Inr (offset, buffer', pool, uncomputed) \<Rightarrow>
               (case fixup uncomputed (pool\<lparr>next_index := word_of_int offset\<rparr>) of
                  None \<Rightarrow> None
                | Some (Inl e) \<Rightarrow> Some (Inl e)
                | Some (Inr pool') \<Rightarrow> Some (Inr (pool', buffer')))))"

section \<open>Instruction blocks\<close>










section \<open>The invariant of a pool\<close>

text \<open>
  Every occupied index lies below \<open>next_index\<close>, or is 2147483647 or more: a
  \<open>__setitem__\<close> that raises \<open>OverflowError\<close> has stored its item at such an index. The
  empty pool and the pools \<open>read\<close> returns are so, and \<open>add\<close>, \<open>__setitem__\<close> and
  \<open>clear\<close> keep a pool so unless the C addition on \<open>_index\<close> wraps around.
\<close>

definition keys_below :: "ConstantPool \<Rightarrow> bool" where
  "keys_below p =
     (\<forall>k. forward_entries p k \<noteq> None \<longrightarrow> k < sint (next_index p) \<or> 2147483647 \<le> k)"


section \<open>Properties of the pool operations\<close>

lemma sint_word_of_int: "fits_int n \<Longrightarrow> sint (word_of_int n :: c_int) = n"
  by (simp add: fits_int_def sint_sbintrunc' signed_take_bit_int_eq_self)

lemma sint_range: "fits_int (sint (w :: c_int))"
  using sint_ge [of w] sint_lt [of w] by (simp add: fits_int_def)

lemma sint_add1:
  assumes "sint (w :: c_int) \<le> 2147483646"
  shows "sint (w + 1) = sint w + 1" and "sint (1 + w) = sint w + 1"
proof -
  have "w + 1 = word_of_int (sint w + 1)" by simp
  moreover have "fits_int (sint w + 1)"
    using assms sint_range [of w] by (simp add: fits_int_def)
  ultimately show "sint (w + 1) = sint w + 1" by (simp only: sint_word_of_int)
  then show "sint (1 + w) = sint w + 1" by (simp add: add.commute)
qed

lemma sint_add2:
  assumes "sint (w :: c_int) \<le> 2147483645"
  shows "sint (w + 1 + 1) = sint w + 2" and "sint (2 + w) = sint w + 2"
proof -
  have 1: "sint (w + 1) = sint w + 1" using assms by (intro sint_add1) simp
  have "sint (w + 1 + 1) = sint (w + 1) + 1" using assms 1 by (intro sint_add1) simp
  with 1 show "sint (w + 1 + 1) = sint w + 2" by simp
  moreover have "w + 1 + 1 = 2 + w" by simp
  ultimately show "sint (2 + w) = sint w + 2" by simp
qed

lemma keys_below_init: "keys_below init"
  by (simp add: keys_below_def init_def)

lemma keys_below_clear: "keys_below (clear p)"
  by (simp add: keys_below_def clear_def)

lemma setitem_const:
  "\<not> is_Index c \<Longrightarrow>
   setitem p i (PyConst c) =
     (if i \<ge> sint (next_index p)
      then (if fits_int (i + 1)
            then (None, p\<lparr>forward_entries := (forward_entries p)(i \<mapsto> c),
                          backward_entries := (backward_entries p)(c \<mapsto> i),
                          next_index := (if wide c then word_of_int (i + 1) + 1
                                         else word_of_int (i + 1))\<rparr>)
            else (Some OverflowError,
                  p\<lparr>forward_entries := (forward_entries p)(i \<mapsto> c),
                    backward_entries := (backward_entries p)(c \<mapsto> i)\<rparr>))
      else (None, p\<lparr>forward_entries := (forward_entries p)(i \<mapsto> c),
                    backward_entries := (backward_entries p)(c \<mapsto> i)\<rparr>))"
  by (cases c) (simp_all add: Let_def)

lemma setitem_other:
  "is_Index c \<Longrightarrow> setitem p i (PyConst c) = (None, p)"
  "setitem p i (PyInt n) = (None, p)"
  "setitem p i (PyStr s) = (None, p)"
  by (cases c; simp)+

lemma add_Index: "is_Index (coerce a) \<Longrightarrow> add p a = (case coerce a of Index n \<Rightarrow> (sint n, p))"
  by (cases "(p, a)" rule: add.cases) simp_all

lemma add_present:
  "\<not> is_Index (coerce a) \<Longrightarrow> backward_entries p (coerce a) = Some i \<Longrightarrow> add p a = (i, p)"
  by (cases "(p, a)" rule: add.cases) simp_all

lemma add_fresh:
  "\<not> is_Index (coerce a) \<Longrightarrow> backward_entries p (coerce a) = None \<Longrightarrow>
   add p a =
     (sint (next_index p),
      p\<lparr>forward_entries := (forward_entries p)(sint (next_index p) \<mapsto> coerce a),
        backward_entries := (backward_entries p)(coerce a \<mapsto> sint (next_index p)),
        next_index := (if wide (coerce a) then next_index p + 1 + 1 else next_index p + 1)\<rparr>)"
  by (cases "(p, a)" rule: add.cases) (simp_all add: Let_def)

lemma wide_not_Index: "wide c \<Longrightarrow> \<not> is_Index c"
  by (cases c) simp_all

lemma keys_below_add:
  assumes "keys_below p"
    and "is_Index (coerce a) \<or> backward_entries p (coerce a) \<noteq> None \<or>
         sint (next_index p) + (if wide (coerce a) then 2 else 1) \<le> 2147483647"
  shows "keys_below (snd (add p a))"
proof (cases "is_Index (coerce a)")
  case True
  then show ?thesis
    using assms(1) by (cases "coerce a") (simp_all add: add_Index)
next
  case False
  show ?thesis
  proof (cases "backward_entries p (coerce a)")
    case None
    have *: "\<And>k y. forward_entries p k = Some y \<Longrightarrow> k < sint (next_index p) \<or> 2147483647 \<le> k"
      using assms(1) by (auto simp: keys_below_def)
    from assms(2) False None
    have bound: "sint (next_index p) + (if wide (coerce a) then 2 else 1) \<le> 2147483647"
      by simp
    show ?thesis
    proof (cases "wide (coerce a)")
      case True
      with bound have "sint (next_index p) \<le> 2147483645" by simp
      from sint_add2 [OF this] True show ?thesis
        unfolding keys_below_def
        by (auto simp: add_fresh [OF False None] simp del: add.simps) (drule *, auto)+
    next
      case nw: False
      with bound have "sint (next_index p) \<le> 2147483646" by simp
      from sint_add1 [OF this] nw show ?thesis
        unfolding keys_below_def
        by (auto simp: add_fresh [OF False None] simp del: add.simps) (drule *, auto)+
    qed
  next
    case (Some i)
    with False assms(1) show ?thesis
      by (simp add: add_present)
  qed
qed

lemma keys_below_setitem:
  assumes "keys_below p"
    and "\<forall>c. x = PyConst c \<longrightarrow> wide c \<longrightarrow> sint (next_index p) \<le> i \<longrightarrow> i \<noteq> 2147483646"
  shows "keys_below (snd (setitem p i x))"
proof (cases x)
  case (PyConst c)
  show ?thesis
  proof (cases "is_Index c")
    case True
    with assms(1) PyConst show ?thesis by (simp add: setitem_other)
  next
    case False
    have *: "\<And>k y. forward_entries p k = Some y \<Longrightarrow> k < sint (next_index p) \<or> 2147483647 \<le> k"
      using assms(1) by (auto simp: keys_below_def)
    show ?thesis
    proof (cases "i \<ge> sint (next_index p)")
      case below: False
      then show ?thesis
        unfolding keys_below_def PyConst
        by (auto simp: setitem_const [OF False] dest: *)
    next
      case True
      show ?thesis
      proof (cases "fits_int (i + 1)")
        case nf: False
        have lo: "- 2147483648 \<le> sint (next_index p)"
          using sint_range [of "next_index p"] by (simp add: fits_int_def)
        with nf True have "2147483647 \<le> i" by (simp add: fits_int_def)
        with nf True show ?thesis
          unfolding keys_below_def PyConst
          by (auto simp: setitem_const [OF False] dest: *)
      next
        case f: True
        have s1: "sint (word_of_int (i + 1) :: c_int) = i + 1"
          by (rule sint_word_of_int) (rule f)
        show ?thesis
        proof (cases "wide c")
          case nw: False
          with True f s1 show ?thesis
            unfolding keys_below_def PyConst
            by (auto simp: setitem_const [OF False] simp del: of_int_add) (drule *, auto)+
        next
          case w: True
          with assms(2) PyConst True have "i \<noteq> 2147483646" by simp
          with f have "sint (word_of_int (i + 1) :: c_int) \<le> 2147483646"
            unfolding s1 by (simp add: fits_int_def)
          from sint_add1 [OF this] s1
          have s2: "sint (word_of_int (i + 1) + 1 :: c_int) = i + 2"
            "sint (1 + word_of_int (i + 1) :: c_int) = i + 2" by simp_all
          from w True f s2 show ?thesis
            unfolding keys_below_def PyConst
            by (auto simp: setitem_const [OF False] simp del: of_int_add) (drule *, auto)+
        qed
      qed
    qed
  qed
qed (use assms(1) in \<open>simp_all add: setitem_other\<close>)

lemma read_loop_keys:
  "read_loop version n offset buffer pool unc = Inr (offset', buffer', pool', unc') \<Longrightarrow>
   (\<forall>k. forward_entries pool k \<noteq> None \<longrightarrow> k < offset) \<Longrightarrow>
   (\<forall>x\<in>set unc. fst x < offset) \<Longrightarrow>
   (\<forall>k. forward_entries pool' k \<noteq> None \<longrightarrow> k < offset') \<and> (\<forall>x\<in>set unc'. fst x < offset') \<and>
   offset \<le> offset' \<and> offset' \<le> max offset (n + 1)"
proof (induction version n offset buffer pool unc rule: read_loop.induct)
  case (1 version n offset buffer pool unc)
  show ?case
  proof (cases "offset < n")
    case False
    with "1.prems" show ?thesis by (simp add: read_loop.simps)
  next
    case True
    from "1.prems"(1) True obtain t buffer1 cl r buffer2 where
      buf: "buffer = t # buffer1" and cm: "constant_map (unat t) = Some cl"
      and nv: "\<not> version_gt (since cl) version"
      and rc: "read_cls cl buffer1 = Inr (r, buffer2)"
      by (subst (asm) read_loop.simps) (auto split: list.splits option.splits if_splits sum.splits)
    let ?off = "if cls_wide cl then offset + 1 + 1 else offset + 1"
    show ?thesis
    proof (cases r)
      case (Resolved c)
      let ?pool = "pool\<lparr>forward_entries := (forward_entries pool)(offset \<mapsto> c),
                         backward_entries := (backward_entries pool)(c \<mapsto> offset)\<rparr>"
      have eq: "read_loop version n ?off buffer2 ?pool unc = Inr (offset', buffer', pool', unc')"
        using "1.prems"(1) True buf cm nv rc Resolved
        by (subst (asm) read_loop.simps) simp
      have a: "\<forall>k. forward_entries ?pool k \<noteq> None \<longrightarrow> k < ?off"
        using "1.prems"(2) by auto
      have b: "\<forall>x\<in>set unc. fst x < ?off"
        using "1.prems"(3) by auto
      from "1.IH"(1) [OF True buf cm nv rc refl Resolved eq a b] True
      show ?thesis by (auto split: if_splits)
    next
      case (Deferred info)
      let ?unc = "unc @ [(offset, cl, info)]"
      have eq: "read_loop version n ?off buffer2 pool ?unc = Inr (offset', buffer', pool', unc')"
        using "1.prems"(1) True buf cm nv rc Deferred
        by (subst (asm) read_loop.simps) simp
      have a: "\<forall>k. forward_entries pool k \<noteq> None \<longrightarrow> k < ?off"
        using "1.prems"(2) by auto
      have b: "\<forall>x\<in>set ?unc. fst x < ?off"
        using "1.prems"(3) by auto
      from "1.IH"(2) [OF True buf cm nv rc refl Deferred eq a b] True
      show ?thesis by (auto split: if_splits)
    qed
  qed
qed



lemma fixup_keys:
  assumes "fixup unc pool = Some r"
  shows "\<forall>pool'. r = Inr pool' \<longrightarrow> keys_below pool \<longrightarrow> (\<forall>x\<in>set unc. fst x < sint (next_index pool))
           \<longrightarrow> keys_below pool'"
proof (rule fixup.raw_induct
    [where P = "\<lambda>unc pool r. \<forall>pool'. r = Inr pool' \<longrightarrow> keys_below pool
                  \<longrightarrow> (\<forall>x\<in>set unc. fst x < sint (next_index pool)) \<longrightarrow> keys_below pool'",
     OF _ assms], goal_cases)
  case (1 fx unc pool r)
  note IH = "1"(1) and body = "1"(2)
  show ?case
  proof (cases unc)
    case Nil
    with body show ?thesis by auto
  next
    case (Cons h rest)
    obtain offset cl info where h: "h = (offset, cl, info)" by (cases h)
    show ?thesis
    proof (cases "dereference cl (forward_entries pool) info")
      case (Inl e)
      with body Cons h show ?thesis by auto
    next
      case (Inr v)
      show ?thesis
      proof (cases v)
        case None
        with body Cons h Inr
        have "fx (rest @ [(offset, cl, info)]) pool = Some r" by simp
        from IH [OF this] Cons h show ?thesis by auto
      next
        case (Some val)
        let ?pool = "pool\<lparr>forward_entries := (forward_entries pool)(offset \<mapsto> val),
                       backward_entries := (backward_entries pool)(val \<mapsto> offset)\<rparr>"
        from body Cons h Inr Some
        have "fx rest ?pool = Some r" by simp
        from IH [OF this] Cons h show ?thesis
          by (auto simp: keys_below_def)
      qed
    qed
  qed
qed

lemma be_nat_u16: "length bs = 2 \<Longrightarrow> be_nat bs < 65536"
proof -
  assume "length bs = 2"
  then obtain a b where bs: "bs = [a, b]"
    by (cases bs; cases "tl bs") auto
  have "unat a < 256" "unat b < 256"
    using unsigned_less [of a] unsigned_less [of b] by simp_all
  then show ?thesis by (simp add: bs be_nat_def)
qed

lemma keys_below_read:
  assumes "read version buffer = Some (Inr (p, rest))"
  shows "keys_below p"
proof -
  from assms obtain n offset buffer' pool unc where
    n: "unpack_H (take 2 buffer) = Inr n"
    and rl: "read_loop version (int n) 1 (drop 2 buffer) init [] = Inr (offset, buffer', pool, unc)"
    and fx: "fixup unc (pool\<lparr>next_index := word_of_int offset\<rparr>) = Some (Inr p)"
    by (auto simp: read_def split: sum.splits option.splits prod.splits)
  from n have "n < 65536"
    by (auto simp: unpack_H_def be_nat_u16 split: if_splits)
  moreover
  have k: "(\<forall>k. forward_entries pool k \<noteq> None \<longrightarrow> k < offset) \<and> (\<forall>x\<in>set unc. fst x < offset) \<and>
        1 \<le> offset \<and> offset \<le> max 1 (int n + 1)"
    by (rule read_loop_keys [OF rl]) (simp_all add: init_def)
  ultimately have "fits_int offset" by (auto simp: fits_int_def)
  then have s: "sint (word_of_int offset :: c_int) = offset" by (rule sint_word_of_int)
  from k s have "keys_below (pool\<lparr>next_index := word_of_int offset\<rparr>)"
    and "\<forall>x\<in>set unc. fst x < sint (next_index (pool\<lparr>next_index := word_of_int offset\<rparr>))"
    by (simp_all add: keys_below_def)
  with fixup_keys [OF fx] show ?thesis by simp
qed


text \<open>
  C10: when the slot at \<open>index\<close> is empty and a default other than \<open>None\<close> is given,
  \<open>get\<close> returns the default whatever \<open>do_raise\<close> is; \<open>do_raise\<close> decides only when no
  default is given: the call then raises \<open>IndexError\<close>, and without \<open>do_raise\<close> it
  builds \<open>Index(index)\<close>, which is returned when \<open>index\<close> fits the C \<open>int\<close> field of
  \<open>Index\<close> and raises \<open>OverflowError\<close> when it does not.
\<close>

theorem get_default_precedes_do_raise:
  "forward_entries p i = None \<Longrightarrow>
   get p i (Some d) True = Inr d \<and> get p i (Some d) False = Inr d \<and>
   get p i None True = Inl (IndexNotDefined i) \<and>
   get p i None False = (if fits_int i then Inr (Index (word_of_int i)) else Inl OverflowError)"
  by (simp add: get_def new_Index_def)

theorem get_default_precedes_do_raise_witness:
  "forward_entries init 6 = None \<and>
   get init 6 (Some (UTF8 [104, 105])) True = Inr (UTF8 [104, 105]) \<and>
   get init 6 None True = Inl (IndexNotDefined 6) \<and>
   get init 6 None False = Inr (Index 6) \<and>
   get init 2147483648 (Some (UTF8 [104, 105])) True = Inr (UTF8 [104, 105]) \<and>
   get init 2147483648 None False = Inl OverflowError"
proof -
  have h: "forward_entries init 6 = None" "forward_entries init 2147483648 = None"
    by (simp_all add: init_def)
  show ?thesis
    using h get_default_precedes_do_raise [OF h(1), of "UTF8 [104, 105]"]
      get_default_precedes_do_raise [OF h(2), of "UTF8 [104, 105]"]
    by (simp add: fits_int_def)
qed

text \<open>
  C2 asks that \<open>pool[index] = c\<close> fail on a bound index and leave the pool as it was.
  The source has no such test: in the pool holding \<open>UTF8 "a"\<close> at index 1, the
  assignment of \<open>UTF8 "b"\<close> to index 1 raises nothing and rebinds the slot.
\<close>

theorem setitem_occupied_counterexample:
  "forward_entries (snd (add init (Str [97]))) 1 = Some (UTF8 [97]) \<and>
   fst (setitem (snd (add init (Str [97]))) 1 (PyConst (UTF8 [98]))) = None \<and>
   forward_entries (snd (setitem (snd (add init (Str [97]))) 1 (PyConst (UTF8 [98])))) 1 =
     Some (UTF8 [98])"
  by (simp add: init_def Let_def)

text \<open>
  C2, as the source has it: for every pool, every index, bound or not, and every
  constant \<open>c\<close> that is no \<open>Index\<close>, \<open>pool[index] = c\<close> stores \<open>c\<close>: afterwards the forward
  dictionary maps \<open>index\<close> to \<open>c\<close> and is otherwise as before, and the backward
  dictionary maps \<open>c\<close> to \<open>index\<close>.
  \<^item> If \<open>index\<close> is below \<open>next_index\<close>, the call raises nothing and \<open>next_index\<close> is as
    before.
  \<^item> If \<open>index\<close> is not below \<open>next_index\<close> and \<open>index + 1\<close> (\<open>index + 2\<close> for a wide \<open>c\<close>) is
    at most 2147483647, the call raises nothing and \<open>next_index\<close> is that number.
  \<^item> If \<open>index\<close> is not below \<open>next_index\<close> and is 2147483647 or more, the call raises
    \<open>OverflowError\<close>, after the two stores, and \<open>next_index\<close> is as before.

  With an \<open>Index\<close> the call raises nothing and changes nothing.
\<close>

theorem setitem_rebinds:
  "(\<not> is_Index c \<longrightarrow>
      forward_entries (snd (setitem p i (PyConst c))) = (forward_entries p)(i \<mapsto> c) \<and>
      backward_entries (snd (setitem p i (PyConst c))) c = Some i \<and>
      (i < sint (next_index p) \<longrightarrow>
         fst (setitem p i (PyConst c)) = None \<and>
         next_index (snd (setitem p i (PyConst c))) = next_index p) \<and>
      (sint (next_index p) \<le> i \<and> i + (if wide c then 2 else 1) \<le> 2147483647 \<longrightarrow>
         fst (setitem p i (PyConst c)) = None \<and>
         sint (next_index (snd (setitem p i (PyConst c)))) = i + (if wide c then 2 else 1)) \<and>
      (sint (next_index p) \<le> i \<and> 2147483647 \<le> i \<longrightarrow>
         fst (setitem p i (PyConst c)) = Some OverflowError \<and>
         next_index (snd (setitem p i (PyConst c))) = next_index p)) \<and>
   (is_Index c \<longrightarrow> setitem p i (PyConst c) = (None, p))"
proof (intro conjI impI)
  assume "is_Index c"
  then show "setitem p i (PyConst c) = (None, p)" by (simp add: setitem_other)
next
  assume n: "\<not> is_Index c"
  note s = setitem_const [OF n, of p i]
  show "forward_entries (snd (setitem p i (PyConst c))) = (forward_entries p)(i \<mapsto> c)"
    by (simp add: s)
  show "backward_entries (snd (setitem p i (PyConst c))) c = Some i"
    by (simp add: s)
  {
    assume "i < sint (next_index p)"
    then show "fst (setitem p i (PyConst c)) = None"
      and "next_index (snd (setitem p i (PyConst c))) = next_index p"
      by (simp_all add: s)
  }
  {
    assume a: "sint (next_index p) \<le> i \<and> i + (if wide c then 2 else 1) \<le> 2147483647"
    have lo: "- 2147483648 \<le> sint (next_index p)"
      using sint_range [of "next_index p"] by (simp add: fits_int_def)
    from a lo have f: "fits_int (i + 1)" by (auto simp: fits_int_def split: if_splits)
    have s1: "sint (word_of_int (i + 1) :: c_int) = i + 1"
      by (rule sint_word_of_int) (rule f)
    show "fst (setitem p i (PyConst c)) = None"
      using a f by (simp add: s)
    show "sint (next_index (snd (setitem p i (PyConst c)))) = i + (if wide c then 2 else 1)"
    proof (cases "wide c")
      case False
      with a f s1 show ?thesis by (simp add: s del: of_int_add)
    next
      case True
      with a s1 have "sint (word_of_int (i + 1) :: c_int) \<le> 2147483646" by simp
      from sint_add1(1) [OF this] s1 have "sint (word_of_int (i + 1) + 1 :: c_int) = i + 2"
        by simp
      with True a f show ?thesis by (simp add: s del: of_int_add)
    qed
  }
  {
    assume a: "sint (next_index p) \<le> i \<and> 2147483647 \<le> i"
    then have f: "\<not> fits_int (i + 1)" by (simp add: fits_int_def)
    from a f show "fst (setitem p i (PyConst c)) = Some OverflowError"
      and "next_index (snd (setitem p i (PyConst c))) = next_index p"
      by (simp_all add: s)
  }
qed

theorem setitem_rebinds_witness:
  "\<not> is_Index (UTF8 [98]) \<and>
   forward_entries (snd (setitem (snd (add init (Str [97]))) 1 (PyConst (UTF8 [98])))) =
     [1 \<mapsto> UTF8 [98]] \<and>
   fst (setitem (snd (add init (Str [97]))) 1 (PyConst (UTF8 [98]))) = None \<and>
   fst (setitem init 5 (PyConst (Long 7))) = None \<and>
   sint (next_index (snd (setitem init 5 (PyConst (Long 7))))) = 7 \<and>
   fst (setitem init 2147483647 (PyConst (UTF8 [98]))) = Some OverflowError \<and>
   forward_entries (snd (setitem init 2147483647 (PyConst (UTF8 [98])))) 2147483647 =
     Some (UTF8 [98]) \<and>
   next_index (snd (setitem init 2147483647 (PyConst (UTF8 [98])))) = 1 \<and>
   is_Index (Index 3) \<and> setitem init 1 (PyConst (Index 3)) = (None, init)"
  using setitem_rebinds [of "UTF8 [98]" "snd (add init (Str [97]))" 1]
    setitem_rebinds [of "Long 7" init 5]
    setitem_rebinds [of "UTF8 [98]" init 2147483647]
    setitem_rebinds [of "Index 3" init 1]
  by (simp add: init_def Let_def)


text \<open>
  C6 says that \<open>next_index\<close> advances by 1 when a constant not yet present is added.
  After \<open>pool[2147483646] = UTF8 "a"\<close> on the empty pool, \<open>next_index\<close> is 2147483647,
  the largest C \<open>int\<close>; \<open>add("b")\<close> returns 2147483647, and the C addition takes
  \<open>next_index\<close> to -2147483648.
\<close>

theorem add_overflow_counterexample:
  "fst (setitem init 2147483646 (PyConst (UTF8 [97]))) = None \<and>
   sint (next_index (snd (setitem init 2147483646 (PyConst (UTF8 [97]))))) = 2147483647 \<and>
   backward_entries (snd (setitem init 2147483646 (PyConst (UTF8 [97])))) (UTF8 [98]) = None \<and>
   fst (add (snd (setitem init 2147483646 (PyConst (UTF8 [97])))) (Str [98])) = 2147483647 \<and>
   sint (next_index (snd (add (snd (setitem init 2147483646 (PyConst (UTF8 [97])))) (Str [98]))))
     = - 2147483648"
  by (simp add: init_def Let_def fits_int_def)

text \<open>
  C6, within the C \<open>int\<close> that holds \<open>next_index\<close>: for every pool and all arguments
  \<open>a\<close>, \<open>a'\<close> that are equal constants once a string is coerced to a \<open>UTF8\<close> constant,
  \<open>add(a')\<close> after \<open>add(a)\<close> returns the index \<open>add(a)\<close> returned and leaves the pool,
  hence its length and \<open>next_index\<close>, as \<open>add(a)\<close> left it. A constant not yet present
  (other than an \<open>Index\<close>) is assigned \<open>next_index\<close> and recorded in both dictionaries,
  and \<open>next_index\<close> advances by 1, or by 2 if the constant is wide, provided the
  advanced value is at most 2147483647. \<open>add(Index(n))\<close> returns \<open>n\<close> and leaves the pool
  unchanged.
\<close>

theorem add_deduplicates:
  "(coerce a' = coerce a \<longrightarrow>
      add (snd (add p a)) a' = (fst (add p a), snd (add p a)) \<and>
      len (snd (add (snd (add p a)) a')) = len (snd (add p a)) \<and>
      next_index (snd (add (snd (add p a)) a')) = next_index (snd (add p a))) \<and>
   (\<not> is_Index (coerce a) \<longrightarrow> backward_entries p (coerce a) = None \<longrightarrow>
      fst (add p a) = sint (next_index p) \<and>
      forward_entries (snd (add p a)) = (forward_entries p)(sint (next_index p) \<mapsto> coerce a) \<and>
      backward_entries (snd (add p a)) = (backward_entries p)(coerce a \<mapsto> sint (next_index p)) \<and>
      (sint (next_index p) + (if wide (coerce a) then 2 else 1) \<le> 2147483647 \<longrightarrow>
         sint (next_index (snd (add p a))) =
           sint (next_index p) + (if wide (coerce a) then 2 else 1))) \<and>
   (\<forall>n. coerce a = Index n \<longrightarrow> add p a = (sint n, p))"
proof (intro conjI impI allI)
  assume eq: "coerce a' = coerce a"
  show *: "add (snd (add p a)) a' = (fst (add p a), snd (add p a))"
  proof (cases "is_Index (coerce a)")
    case True
    then show ?thesis
      using eq by (cases "coerce a") (simp_all add: add_Index)
  next
    case False
    show ?thesis
    proof (cases "backward_entries p (coerce a)")
      case None
      have "backward_entries (snd (add p a)) (coerce a') = Some (sint (next_index p))"
        by (simp add: add_fresh [OF False None] eq)
      with False eq show ?thesis
        by (simp add: add_present add_fresh [OF False None])
    next
      case (Some j)
      with False eq show ?thesis
        by (simp add: add_present)
    qed
  qed
  show "len (snd (add (snd (add p a)) a')) = len (snd (add p a))"
    by (simp add: *)
  show "next_index (snd (add (snd (add p a)) a')) = next_index (snd (add p a))"
    by (simp add: *)
next
  assume "\<not> is_Index (coerce a)" "backward_entries p (coerce a) = None"
  note f = add_fresh [OF this]
  show "fst (add p a) = sint (next_index p)" by (simp add: f)
  show "forward_entries (snd (add p a)) = (forward_entries p)(sint (next_index p) \<mapsto> coerce a)"
    by (simp add: f)
  show "backward_entries (snd (add p a)) = (backward_entries p)(coerce a \<mapsto> sint (next_index p))"
    by (simp add: f)
  assume b: "sint (next_index p) + (if wide (coerce a) then 2 else 1) \<le> 2147483647"
  show "sint (next_index (snd (add p a))) =
          sint (next_index p) + (if wide (coerce a) then 2 else 1)"
  proof (cases "wide (coerce a)")
    case True
    with b have "sint (next_index p) \<le> 2147483645" by simp
    from sint_add2 [OF this] True show ?thesis by (simp add: f)
  next
    case False
    with b have "sint (next_index p) \<le> 2147483646" by simp
    from sint_add1 [OF this] False show ?thesis by (simp add: f)
  qed
next
  fix n assume "coerce a = Index n"
  then show "add p a = (sint n, p)" by (simp add: add_Index)
qed

theorem add_deduplicates_witness:
  "coerce (Const (UTF8 [104, 101, 108, 108, 111])) = coerce (Str [104, 101, 108, 108, 111]) \<and>
   \<not> is_Index (coerce (Str [104, 101, 108, 108, 111])) \<and>
   backward_entries init (coerce (Str [104, 101, 108, 108, 111])) = None \<and>
   fst (add init (Str [104, 101, 108, 108, 111])) = 1 \<and>
   sint (next_index (snd (add init (Str [104, 101, 108, 108, 111])))) = 2 \<and>
   add (snd (add init (Str [104, 101, 108, 108, 111]))) (Const (UTF8 [104, 101, 108, 108, 111]))
     = (1, snd (add init (Str [104, 101, 108, 108, 111]))) \<and>
   len (snd (add (snd (add init (Str [104, 101, 108, 108, 111])))
                 (Const (UTF8 [104, 101, 108, 108, 111])))) = 1 \<and>
   coerce (Const (Index 4)) = Index 4 \<and> add init (Const (Index 4)) = (4, init)"
  using add_deduplicates [of "Const (UTF8 [104, 101, 108, 108, 111])" "Str [104, 101, 108, 108, 111]" init]
    add_deduplicates [of "Const (Index 4)" "Const (Index 4)" init]
  by (simp add: init_def len_def Let_def)

text \<open>
  C7 speaks of every pool. After \<open>pool[2147483645] = UTF8 "a"\<close> on the empty pool,
  \<open>next_index\<close> is 2147483646; adding \<open>Long 7\<close> assigns it 2147483646, and the C
  addition takes \<open>next_index\<close> to -2147483648, not to 2147483648. And once the counter
  has wrapped around, the index after a wide constant can be occupied: after
  \<open>pool[-2147483647] = UTF8 "a"\<close>, \<open>pool[2147483646] = UTF8 "b"\<close> and \<open>add("c")\<close>,
  \<open>next_index\<close> is -2147483648; \<open>Long 7\<close> is assigned that index, and index -2147483647
  holds \<open>UTF8 "a"\<close>.
\<close>

theorem wide_stride_counterexample:
  "fst (setitem init 2147483645 (PyConst (UTF8 [97]))) = None \<and>
   sint (next_index (snd (setitem init 2147483645 (PyConst (UTF8 [97]))))) = 2147483646 \<and>
   wide (Long 7) \<and>
   backward_entries (snd (setitem init 2147483645 (PyConst (UTF8 [97])))) (Long 7) = None \<and>
   fst (add (snd (setitem init 2147483645 (PyConst (UTF8 [97])))) (Const (Long 7))) = 2147483646 \<and>
   sint (next_index (snd (add (snd (setitem init 2147483645 (PyConst (UTF8 [97]))))
                              (Const (Long 7))))) = - 2147483648 \<and>
   sint (next_index (snd (add (snd (setitem (snd (setitem init (- 2147483647)
             (PyConst (UTF8 [97])))) 2147483646 (PyConst (UTF8 [98])))) (Str [99])))) = - 2147483648 \<and>
   backward_entries (snd (add (snd (setitem (snd (setitem init (- 2147483647)
             (PyConst (UTF8 [97])))) 2147483646 (PyConst (UTF8 [98])))) (Str [99]))) (Long 7) = None \<and>
   fst (add (snd (add (snd (setitem (snd (setitem init (- 2147483647)
             (PyConst (UTF8 [97])))) 2147483646 (PyConst (UTF8 [98])))) (Str [99])))
            (Const (Long 7))) = - 2147483648 \<and>
   forward_entries (snd (add (snd (add (snd (setitem (snd (setitem init (- 2147483647)
             (PyConst (UTF8 [97])))) 2147483646 (PyConst (UTF8 [98])))) (Str [99])))
            (Const (Long 7)))) (- 2147483647) = Some (UTF8 [97])"
  by (simp add: init_def Let_def fits_int_def)

text \<open>
  C7, within the C \<open>int\<close>: for every pool that satisfies the invariant above and whose
  \<open>next_index\<close> is at most 2147483645, adding a wide constant that is not yet present
  assigns it the index \<open>i = next_index\<close>, sets \<open>next_index\<close> to \<open>i + 2\<close> and leaves index
  \<open>i + 1\<close> unoccupied: \<open>pool[i + 1]\<close> is \<open>Index(i + 1)\<close>, and \<open>get(i + 1, do_raise=True)\<close>
  raises.
\<close>

theorem wide_stride:
  assumes "keys_below p" and "sint (next_index p) \<le> 2147483645"
    and "wide c" and "backward_entries p c = None"
    and "add p (Const c) = (i, p')"
  shows "i = sint (next_index p) \<and> sint (next_index p') = i + 2 \<and>
         forward_entries p' i = Some c \<and> forward_entries p' (i + 1) = None \<and>
         getitem p' (PyInt (i + 1)) = Inr (PyConst (Index (word_of_int (i + 1)))) \<and>
         get p' (i + 1) None True = Inl (IndexNotDefined (i + 1))"
proof -
  have ni: "\<not> is_Index (coerce (Const c))"
    using assms(3) by (simp add: wide_not_Index)
  have fresh: "backward_entries p (coerce (Const c)) = None"
    using assms(4) by simp
  have kb: "forward_entries p (sint (next_index p) + 1) = None"
  proof (rule ccontr)
    assume "forward_entries p (sint (next_index p) + 1) \<noteq> None"
    with assms(1) have "sint (next_index p) + 1 < sint (next_index p) \<or>
        2147483647 \<le> sint (next_index p) + 1"
      unfolding keys_below_def by blast
    with assms(2) show False by simp
  qed
  have lo: "- 2147483648 \<le> sint (next_index p)"
    using sint_range [of "next_index p"] by (simp add: fits_int_def)
  with assms(2) have f: "fits_int (sint (next_index p) + 1)" by (simp add: fits_int_def)
  from add_fresh [OF ni fresh] assms(3,5)
  have i: "i = sint (next_index p)"
    and p': "p' = p\<lparr>forward_entries := (forward_entries p)(sint (next_index p) \<mapsto> c),
                     backward_entries := (backward_entries p)(c \<mapsto> sint (next_index p)),
                     next_index := next_index p + 1 + 1\<rparr>"
    by simp_all
  have fw: "forward_entries p' (sint (next_index p) + 1) = None"
    using kb by (simp add: p')
  have "sint (next_index p') = sint (next_index p) + 2"
    using sint_add2(1) [OF assms(2)] by (simp add: p')
  moreover have "forward_entries p' (sint (next_index p)) = Some c" by (simp add: p')
  moreover have "getitem p' (PyInt (sint (next_index p) + 1)) =
      Inr (PyConst (Index (word_of_int (sint (next_index p) + 1))))"
    using fw f by (simp add: new_Index_def del: of_int_add)
  moreover have "get p' (sint (next_index p) + 1) None True =
      Inl (IndexNotDefined (sint (next_index p) + 1))"
    using fw by (simp add: get_def)
  ultimately show ?thesis using fw unfolding i by blast
qed

theorem wide_stride_witness:
  "keys_below init \<and> sint (next_index init) \<le> 2147483645 \<and> wide (Long 7) \<and>
   backward_entries init (Long 7) = None \<and>
   fst (add init (Const (Long 7))) = 1 \<and>
   sint (next_index (snd (add init (Const (Long 7))))) = 3 \<and>
   forward_entries (snd (add init (Const (Long 7)))) 2 = None \<and>
   getitem (snd (add init (Const (Long 7)))) (PyInt 2) = Inr (PyConst (Index 2)) \<and>
   get (snd (add init (Const (Long 7)))) 2 None True = Inl (IndexNotDefined 2)"
proof -
  have k: "keys_below init" by (rule keys_below_init)
  have n: "sint (next_index init) \<le> 2147483645" by (simp add: init_def)
  have w: "wide (Long 7)" by simp
  have b: "backward_entries init (Long 7) = None" by (simp add: init_def)
  have h: "add init (Const (Long 7)) = (1, snd (add init (Const (Long 7))))"
    by (simp add: init_def Let_def)
  show ?thesis
    using wide_stride [OF k n w b h] k n b by (simp add: init_def Let_def)
qed

section \<open>Properties of the MUTF-8 codec\<close>

lemma unat_byte: "n < 256 \<Longrightarrow> unat (of_nat n :: byte) = n"
  by (simp add: unat_of_nat)

lemma decode1:
  "unat b0 < 0x80 \<Longrightarrow> utf8_decode_ignore (b0 # rest) = unat b0 # utf8_decode_ignore rest"
  by simp

lemma decode2:
  "0xC2 \<le> unat b0 \<Longrightarrow> unat b0 \<le> 0xDF \<Longrightarrow> cont b1 \<Longrightarrow>
   utf8_decode_ignore (b0 # b1 # rest) =
     ((unat b0 - 0xC0) * 64 + (unat b1 - 0x80)) # utf8_decode_ignore rest"
  by simp

lemma decode3:
  "0xE0 \<le> unat b0 \<Longrightarrow> unat b0 \<le> 0xEF \<Longrightarrow> second_ok b0 b1 \<Longrightarrow> cont b2 \<Longrightarrow>
   utf8_decode_ignore (b0 # b1 # b2 # rest) =
     ((unat b0 - 0xE0) * 4096 + (unat b1 - 0x80) * 64 + (unat b2 - 0x80))
       # utf8_decode_ignore rest"
  by simp

lemma decode4:
  "0xF0 \<le> unat b0 \<Longrightarrow> unat b0 \<le> 0xF4 \<Longrightarrow> second_ok b0 b1 \<Longrightarrow> cont b2 \<Longrightarrow> cont b3 \<Longrightarrow>
   utf8_decode_ignore (b0 # b1 # b2 # b3 # rest) =
     ((unat b0 - 0xF0) * 262144 + (unat b1 - 0x80) * 4096 + (unat b2 - 0x80) * 64
        + (unat b3 - 0x80)) # utf8_decode_ignore rest"
  by simp

lemma cont_byte: "m < 64 \<Longrightarrow> cont (of_nat (0x80 + m))"
  unfolding cont_def by (subst unat_byte, linarith)+ simp

lemma unat_cont_byte: "m < 64 \<Longrightarrow> unat (of_nat (0x80 + m) :: byte) - 0x80 = m"
  by (subst unat_byte, linarith) simp

lemma decode_encode_cp1:
  assumes "c < 0x80"
  shows "utf8_decode_ignore (encode_cp c @ rest) = c # utf8_decode_ignore rest"
proof -
  have u: "unat (of_nat c :: byte) = c"
    by (rule unat_byte) (use assms in linarith)
  have e: "encode_cp c = [of_nat c]" using assms by (simp add: encode_cp_def)
  have "utf8_decode_ignore (of_nat c # rest) = unat (of_nat c :: byte) # utf8_decode_ignore rest"
    by (rule decode1) (use assms u in linarith)
  then show ?thesis unfolding e u by simp
qed

lemma decode_encode_cp2:
  assumes "0x80 \<le> c" "c < 0x800"
  shows "utf8_decode_ignore (encode_cp c @ rest) = c # utf8_decode_ignore rest"
proof -
  let ?b0 = "of_nat (0xC0 + c div 64) :: byte"
  let ?b1 = "of_nat (0x80 + c mod 64) :: byte"
  have d: "2 \<le> c div 64" "c div 64 < 32" using assms by simp_all
  have m: "c mod 64 < 64" by simp
  have u0: "unat ?b0 = 0xC0 + c div 64"
    by (rule unat_byte) (use d in linarith)
  have e: "encode_cp c = [?b0, ?b1]"
    using assms by (simp add: encode_cp_def)
  have "utf8_decode_ignore (?b0 # ?b1 # rest) =
          ((unat ?b0 - 0xC0) * 64 + (unat ?b1 - 0x80)) # utf8_decode_ignore rest"
    by (rule decode2) (use d u0 in linarith, use d u0 in linarith, rule cont_byte [OF m])
  also have "(unat ?b0 - 0xC0) * 64 + (unat ?b1 - 0x80) = c"
    unfolding u0 unat_cont_byte [OF m] by simp
  finally show ?thesis unfolding e by simp
qed

lemma radix64_3: "q = a * 64 + b \<Longrightarrow> c = q * 64 + m \<Longrightarrow> c = a * 4096 + b * 64 + (m::nat)"
  by simp

lemma radix64_4:
  "r = a * 64 + b \<Longrightarrow> q = r * 64 + k \<Longrightarrow> c = q * 64 + m \<Longrightarrow>
   c = a * 262144 + b * 4096 + k * 64 + (m::nat)"
  by simp

lemma split_cp3: "(c::nat) = c div 4096 * 4096 + c div 64 mod 64 * 64 + c mod 64"
proof -
  have "c div 64 div 64 = c div 4096" by (simp add: div_mult2_eq [symmetric])
  then show ?thesis
    using radix64_3 [of "c div 64" "c div 4096" "c div 64 mod 64" c "c mod 64"]
    by (metis div_mult_mod_eq)
qed

lemma split_cp4:
  "(c::nat) = c div 262144 * 262144 + c div 4096 mod 64 * 4096 + c div 64 mod 64 * 64 + c mod 64"
proof -
  have 1: "c div 64 div 64 = c div 4096" by (simp add: div_mult2_eq [symmetric])
  have 2: "c div 4096 div 64 = c div 262144" by (simp add: div_mult2_eq [symmetric])
  show ?thesis
    using radix64_4 [of "c div 4096" "c div 262144" "c div 4096 mod 64" "c div 64"
                        "c div 64 mod 64" c "c mod 64"] 1 2
    by (metis div_mult_mod_eq)
qed

lemma decode_encode_cp3:
  assumes "0x800 \<le> c" "c < 0x10000" "\<not> surrogate c"
  shows "utf8_decode_ignore (encode_cp c @ rest) = c # utf8_decode_ignore rest"
proof -
  define A where "A = c div 4096"
  define B where "B = c div 64 mod 64"
  define M where "M = c mod 64"
  let ?b0 = "of_nat (0xE0 + A) :: byte"
  let ?b1 = "of_nat (0x80 + B) :: byte"
  let ?b2 = "of_nat (0x80 + M) :: byte"
  have B: "B < 64" and M: "M < 64" by (simp_all add: B_def M_def)
  have c: "c = A * 4096 + B * 64 + M"
    unfolding A_def B_def M_def by (rule split_cp3)
  have A: "A < 16" using assms(2) c by linarith
  have lo: "A = 0 \<Longrightarrow> 32 \<le> B" using assms(1) c M by linarith
  have ns: "c < 0xD800 \<or> 0xDFFF < c" using assms(3) unfolding surrogate_def by linarith
  have hi: "A = 13 \<Longrightarrow> B < 32" using ns c B M by linarith
  have u0: "unat ?b0 = 0xE0 + A"
    by (rule unat_byte) (use A in linarith)
  have u1: "unat ?b1 = 0x80 + B"
    by (rule unat_byte) (use B in linarith)
  have e: "encode_cp c = [?b0, ?b1, ?b2]"
    using assms by (simp add: encode_cp_def A_def B_def M_def)
  have s: "second_ok ?b0 ?b1"
    unfolding second_ok_def cont_def u0 u1 using A B lo hi by auto
  have "utf8_decode_ignore (?b0 # ?b1 # ?b2 # rest) =
          ((unat ?b0 - 0xE0) * 4096 + (unat ?b1 - 0x80) * 64 + (unat ?b2 - 0x80))
            # utf8_decode_ignore rest"
    by (rule decode3) (use A u0 in linarith, use A u0 in linarith, rule s, rule cont_byte [OF M])
  also have "(unat ?b0 - 0xE0) * 4096 + (unat ?b1 - 0x80) * 64 + (unat ?b2 - 0x80) = c"
    unfolding u0 unat_cont_byte [OF B] unat_cont_byte [OF M] using c by simp
  finally show ?thesis unfolding e by simp
qed

lemma decode_encode_cp4:
  assumes "0x10000 \<le> c" "c < 0x110000"
  shows "utf8_decode_ignore (encode_cp c @ rest) = c # utf8_decode_ignore rest"
proof -
  define A where "A = c div 262144"
  define B where "B = c div 4096 mod 64"
  define K where "K = c div 64 mod 64"
  define M where "M = c mod 64"
  let ?b0 = "of_nat (0xF0 + A) :: byte"
  let ?b1 = "of_nat (0x80 + B) :: byte"
  let ?b2 = "of_nat (0x80 + K) :: byte"
  let ?b3 = "of_nat (0x80 + M) :: byte"
  have B: "B < 64" and K: "K < 64" and M: "M < 64" by (simp_all add: B_def K_def M_def)
  have c: "c = A * 262144 + B * 4096 + K * 64 + M"
    unfolding A_def B_def K_def M_def by (rule split_cp4)
  have A: "A \<le> 4" using assms(2) c by linarith
  have lo: "A = 0 \<Longrightarrow> 16 \<le> B" using assms(1) c K M by linarith
  have hi: "A = 4 \<Longrightarrow> B < 16" using assms(2) c by linarith
  have u0: "unat ?b0 = 0xF0 + A"
    by (rule unat_byte) (use A in linarith)
  have u1: "unat ?b1 = 0x80 + B"
    by (rule unat_byte) (use B in linarith)
  have e: "encode_cp c = [?b0, ?b1, ?b2, ?b3]"
    using assms by (simp add: encode_cp_def A_def B_def K_def M_def)
  have s: "second_ok ?b0 ?b1"
    unfolding second_ok_def cont_def u0 u1 using A B lo hi by auto
  have "utf8_decode_ignore (?b0 # ?b1 # ?b2 # ?b3 # rest) =
          ((unat ?b0 - 0xF0) * 262144 + (unat ?b1 - 0x80) * 4096 + (unat ?b2 - 0x80) * 64
             + (unat ?b3 - 0x80)) # utf8_decode_ignore rest"
    by (rule decode4)
       (use A u0 in linarith, use A u0 in linarith, rule s, rule cont_byte [OF K],
        rule cont_byte [OF M])
  also have "(unat ?b0 - 0xF0) * 262144 + (unat ?b1 - 0x80) * 4096 + (unat ?b2 - 0x80) * 64
               + (unat ?b3 - 0x80) = c"
    unfolding u0 unat_cont_byte [OF B] unat_cont_byte [OF K] unat_cont_byte [OF M]
    using c by simp
  finally show ?thesis unfolding e by simp
qed


lemma decode_encode_cp:
  assumes "c < 0x110000" "\<not> surrogate c"
  shows "utf8_decode_ignore (encode_cp c @ rest) = c # utf8_decode_ignore rest"
proof -
  consider "c < 0x80" | "0x80 \<le> c" "c < 0x800" | "0x800 \<le> c" "c < 0x10000" | "0x10000 \<le> c"
    by linarith
  then show ?thesis
    using assms
    by cases (simp_all add: decode_encode_cp1 decode_encode_cp2 decode_encode_cp3 decode_encode_cp4)
qed

lemma decode_encode_concat:
  "\<forall>c\<in>set s. c < 0x110000 \<and> \<not> surrogate c \<Longrightarrow>
   utf8_decode_ignore (concat (map encode_cp s)) = s"
proof (induction s)
  case Nil
  show ?case by simp
next
  case (Cons c s)
  have "utf8_decode_ignore (encode_cp c @ concat (map encode_cp s))
          = c # utf8_decode_ignore (concat (map encode_cp s))"
    by (rule decode_encode_cp) (use Cons.prems in simp_all)
  with Cons show ?case by simp
qed

lemma byte_ne_C0: "n < 256 \<Longrightarrow> n \<noteq> 0xC0 \<Longrightarrow> (of_nat n :: byte) \<noteq> 0xC0"
proof
  assume n: "n < 256" "n \<noteq> 0xC0" and "(of_nat n :: byte) = 0xC0"
  then have "unat (of_nat n :: byte) = unat (0xC0 :: byte)" by simp
  with n show False by (simp add: unat_byte)
qed

lemma encode_cp_no_C0: "c < 0x110000 \<Longrightarrow> 0xC0 \<notin> set (encode_cp c)"
proof -
  assume c: "c < 0x110000"
  have m: "\<And>m. m < 64 \<Longrightarrow> (of_nat (0x80 + m) :: byte) \<noteq> 0xC0"
    by (rule byte_ne_C0) simp_all
  have b1: "c < 0x80 \<Longrightarrow> (of_nat c :: byte) \<noteq> 0xC0"
    by (rule byte_ne_C0) simp_all
  have b2: "0x80 \<le> c \<Longrightarrow> c < 0x800 \<Longrightarrow> (of_nat (0xC0 + c div 64) :: byte) \<noteq> 0xC0"
    by (rule byte_ne_C0) simp_all
  have b3: "c < 0x10000 \<Longrightarrow> (of_nat (0xE0 + c div 4096) :: byte) \<noteq> 0xC0"
    by (rule byte_ne_C0) simp_all
  have b4: "(of_nat (0xF0 + c div 262144) :: byte) \<noteq> 0xC0"
    by (rule byte_ne_C0) (use c in simp_all)
  show ?thesis
    unfolding encode_cp_def using m [of "c mod 64"] m [of "c div 64 mod 64"]
      m [of "c div 4096 mod 64"] b1 b2 b3 b4
    by (auto simp del: of_nat_add)
qed


lemma replace_nul_Cons:
  "bytes_replace [0x00] [0xC0, 0x80] (b # bs) =
     (if b = 0 then 0xC0 # 0x80 # bytes_replace [0x00] [0xC0, 0x80] bs
      else b # bytes_replace [0x00] [0xC0, 0x80] bs)"
  by simp

lemma replace_C080_hit:
  "bytes_replace [0xC0, 0x80] [0x00] (0xC0 # 0x80 # bs) = 0 # bytes_replace [0xC0, 0x80] [0x00] bs"
  by simp

lemma replace_C080_miss:
  "b \<noteq> 0xC0 \<Longrightarrow>
   bytes_replace [0xC0, 0x80] [0x00] (b # bs) = b # bytes_replace [0xC0, 0x80] [0x00] bs"
  by (cases bs) simp_all

lemma replace_inverse:
  "0xC0 \<notin> set bs \<Longrightarrow>
   bytes_replace [0xC0, 0x80] [0x00] (bytes_replace [0x00] [0xC0, 0x80] bs) = bs"
proof (induction bs)
  case Nil
  show ?case by simp
next
  case (Cons b bs)
  then have IH: "bytes_replace [0xC0, 0x80] [0x00] (bytes_replace [0x00] [0xC0, 0x80] bs) = bs"
    and b: "b \<noteq> 0xC0" by auto
  show ?case
  proof (cases "b = 0")
    case True
    then show ?thesis
      by (simp add: replace_nul_Cons replace_C080_hit IH del: bytes_replace.simps)
  next
    case False
    then show ?thesis
      by (simp add: replace_nul_Cons replace_C080_miss [OF b] IH del: bytes_replace.simps)
  qed
qed

lemma concat_encode_no_C0:
  "\<forall>c\<in>set s. c < 0x110000 \<Longrightarrow> 0xC0 \<notin> set (concat (map encode_cp s))"
  using encode_cp_no_C0 by auto

lemma unpack_pack_H:
  assumes "pack_H n = Inr h"
  shows "length h = 2 \<and> unpack_H h = Inr n"
proof -
  from assms have n: "n \<le> 65535" and h: "h = [of_nat (n div 256), of_nat (n mod 256)]"
    by (auto simp: pack_H_def split: if_splits)
  have d: "n div 256 < 256" using n by simp
  have u0: "unat (of_nat (n div 256) :: byte) = n div 256"
    by (rule unat_byte) (rule d)
  have u1: "unat (of_nat (n mod 256) :: byte) = n mod 256"
    by (rule unat_byte) simp
  show ?thesis
    unfolding h unpack_H_def be_nat_def by (simp only: foldl.simps u0 u1) simp
qed


lemma UTF8_write_ok:
  assumes "\<not> list_ex surrogate s"
    and "length (bytes_replace [0x00] [0xC0, 0x80] (concat (map encode_cp s))) \<le> 65535"
  shows "\<exists>h. pack_H (length (bytes_replace [0x00] [0xC0, 0x80] (concat (map encode_cp s)))) = Inr h \<and>
             UTF8_write s buffer =
               Inr (buffer @ h @ bytes_replace [0x00] [0xC0, 0x80] (concat (map encode_cp s)))"
  using assms by (simp add: UTF8_write_def utf8_encode_def pack_H_def Let_def)

lemma UTF8_write_too_long:
  assumes "\<not> list_ex surrogate s"
    and "65535 < length (bytes_replace [0x00] [0xC0, 0x80] (concat (map encode_cp s)))"
  shows "UTF8_write s buffer = Inl LengthOutOfRange"
  using assms by (simp add: UTF8_write_def utf8_encode_def pack_H_def Let_def)

lemma UTF8_read_framed:
  assumes "unpack_H h = Inr (length val)" and "length h = 2"
  shows "UTF8_read (h @ val @ rest) =
           Inr (UTF8 (utf8_decode_ignore (bytes_replace [0xC0, 0x80] [0x00] val)), rest)"
  using assms by (simp add: UTF8_read_def)

lemma encode_replicate_ascii:
  "concat (map encode_cp (replicate n 0x61)) = replicate n 0x61"
  by (induction n) (simp_all add: encode_cp_def)

lemma replace_nul_replicate:
  "bytes_replace [0x00] [0xC0, 0x80] (replicate n 0x61) = replicate n 0x61"
  by (induction n) simp_all

lemma long_string_write:
  assumes "65535 < n"
  shows "UTF8_write (replicate n 0x61) buffer = Inl LengthOutOfRange"
proof (rule UTF8_write_too_long)
  show "\<not> list_ex surrogate (replicate n 0x61)"
    by (simp add: list_ex_iff surrogate_def)
  have "length (bytes_replace [0x00] [0xC0, 0x80] (concat (map encode_cp (replicate n 0x61)))) = n"
    by (simp only: encode_replicate_ascii replace_nul_replicate length_replicate)
  with assms
  show "65535 < length (bytes_replace [0x00] [0xC0, 0x80] (concat (map encode_cp (replicate n 0x61))))"
    by simp
qed

lemma valid_replicate_ascii: "list_all valid_cp (replicate n 0x61)"
  by (induction n) (simp_all add: valid_cp_def surrogate_def)

text \<open>
  C5 gives the bytes \<open>00 03 61 C0 80 62\<close> for the constant holding \<open>"a\u0000b"\<close>, and
  5 for what the length field reports. \<open>UTF8.write\<close> does not emit these bytes.
\<close>

theorem UTF8_write_nul_counterexample:
  "UTF8_write [0x61, 0x00, 0x62] [] \<noteq> Inr [0x00, 0x03, 0x61, 0xC0, 0x80, 0x62]"
  by (simp add: UTF8_write_def utf8_encode_def encode_cp_def surrogate_def pack_H_def)

text \<open>
  C5, as the source has it: \<open>UTF8.write\<close> on the constant holding the three-character
  string \<open>"a\u0000b"\<close> emits exactly \<open>00 04 61 C0 80 62\<close>; the two-byte length field
  reports 4, the number of bytes of the MUTF-8 payload \<open>61 C0 80 62\<close>.
\<close>

theorem UTF8_write_nul:
  "UTF8_write [0x61, 0x00, 0x62] buffer = Inr (buffer @ [0x00, 0x04, 0x61, 0xC0, 0x80, 0x62]) \<and>
   unpack_H [0x00, 0x04] = Inr (length [0x61, 0xC0, 0x80, 0x62 :: byte])"
  by (simp add: UTF8_write_def utf8_encode_def encode_cp_def surrogate_def pack_H_def
        unpack_H_def be_nat_def)

text \<open>
  C4 speaks of every string without surrogates. The string of 65536 letters \<open>a\<close> has
  none, and \<open>UTF8.write\<close> emits nothing for it: \<open>pack_H\<close> cannot pack its length.
\<close>

theorem mutf8_roundtrip_counterexample:
  "list_all valid_cp (replicate 65536 0x61) \<and>
   UTF8_write (replicate 65536 0x61) [] = Inl LengthOutOfRange"
  by (simp add: long_string_write valid_replicate_ascii)

text \<open>
  C4, with the bound of the length field: for every string \<open>s\<close> without surrogates whose
  MUTF-8 encoding has at most 65535 bytes, \<open>UTF8.read\<close> of the bytes \<open>UTF8.write\<close> emits
  (followed by whatever else the buffer holds) yields \<open>s\<close> again and leaves the rest of
  the buffer; for a longer encoding \<open>UTF8.write\<close> fails. The code point \<open>U+0000\<close> is
  encoded as exactly the two bytes \<open>C0 80\<close>, after the length 2.
\<close>

theorem mutf8_roundtrip:
  "(list_all valid_cp s \<and>
    length (bytes_replace [0x00] [0xC0, 0x80] (concat (map encode_cp s))) \<le> 65535 \<longrightarrow>
      (\<exists>bs. UTF8_write s buffer = Inr (buffer @ bs) \<and>
            UTF8_read (bs @ rest) = Inr (UTF8 s, rest))) \<and>
   (list_all valid_cp s \<and>
    65535 < length (bytes_replace [0x00] [0xC0, 0x80] (concat (map encode_cp s))) \<longrightarrow>
      UTF8_write s buffer = Inl LengthOutOfRange) \<and>
   UTF8_write [0x00] buffer = Inr (buffer @ [0x00, 0x02, 0xC0, 0x80])"
proof (intro conjI impI)
  let ?val = "bytes_replace [0x00] [0xC0, 0x80] (concat (map encode_cp s))"
  assume a: "list_all valid_cp s \<and> length ?val \<le> 65535"
  then have v: "\<forall>c\<in>set s. c < 0x110000 \<and> \<not> surrogate c"
    by (simp add: list_all_iff valid_cp_def)
  then have ns: "\<not> list_ex surrogate s" by (auto simp: list_ex_iff)
  from UTF8_write_ok [OF ns] a obtain h where
    h: "pack_H (length ?val) = Inr h" and w: "UTF8_write s buffer = Inr (buffer @ h @ ?val)"
    by blast
  from unpack_pack_H [OF h] have l: "length h = 2" and u: "unpack_H h = Inr (length ?val)"
    by simp_all
  have "0xC0 \<notin> set (concat (map encode_cp s))"
    by (rule concat_encode_no_C0) (use v in blast)
  then have "bytes_replace [0xC0, 0x80] [0x00] ?val = concat (map encode_cp s)"
    by (rule replace_inverse)
  moreover have "utf8_decode_ignore (concat (map encode_cp s)) = s"
    by (rule decode_encode_concat) (rule v)
  ultimately have "UTF8_read (h @ ?val @ rest) = Inr (UTF8 s, rest)"
    using UTF8_read_framed [OF u l, of rest] by simp
  with w show "\<exists>bs. UTF8_write s buffer = Inr (buffer @ bs) \<and>
                    UTF8_read (bs @ rest) = Inr (UTF8 s, rest)"
    by (intro exI [of _ "h @ ?val"]) simp
next
  let ?val = "bytes_replace [0x00] [0xC0, 0x80] (concat (map encode_cp s))"
  assume a: "list_all valid_cp s \<and> 65535 < length ?val"
  then have "\<not> list_ex surrogate s"
    by (auto simp: list_all_iff list_ex_iff valid_cp_def)
  with a show "UTF8_write s buffer = Inl LengthOutOfRange"
    by (simp add: UTF8_write_too_long)
next
  show "UTF8_write [0x00] buffer = Inr (buffer @ [0x00, 0x02, 0xC0, 0x80])"
    by (simp add: UTF8_write_def utf8_encode_def encode_cp_def surrogate_def pack_H_def)
qed

theorem mutf8_roundtrip_witness:
  "list_all valid_cp [0x61, 0x00, 0x20AC, 0x1F600] \<and>
   UTF8_write [0x61, 0x00, 0x20AC, 0x1F600] [] =
     Inr [0x00, 0x0A, 0x61, 0xC0, 0x80, 0xE2, 0x82, 0xAC, 0xF0, 0x9F, 0x98, 0x80] \<and>
   UTF8_read [0x00, 0x0A, 0x61, 0xC0, 0x80, 0xE2, 0x82, 0xAC, 0xF0, 0x9F, 0x98, 0x80] =
     Inr (UTF8 [0x61, 0x00, 0x20AC, 0x1F600], []) \<and>
   list_all valid_cp (replicate 65540 0x61) \<and>
   UTF8_write (replicate 65540 0x61) [] = Inl LengthOutOfRange"
proof -
  have v: "list_all valid_cp [0x61, 0x00, 0x20AC, 0x1F600]"
    by (simp add: valid_cp_def surrogate_def)
  have l: "length (bytes_replace [0x00] [0xC0, 0x80]
                     (concat (map encode_cp [0x61, 0x00, 0x20AC, 0x1F600]))) \<le> 65535"
    by (simp add: encode_cp_def)
  have w: "UTF8_write [0x61, 0x00, 0x20AC, 0x1F600] [] =
             Inr [0x00, 0x0A, 0x61, 0xC0, 0x80, 0xE2, 0x82, 0xAC, 0xF0, 0x9F, 0x98, 0x80]"
    by (simp add: UTF8_write_def utf8_encode_def surrogate_def pack_H_def encode_cp_def Let_def)
  have n: "65535 < length (bytes_replace [0x00] [0xC0, 0x80]
                             (concat (map encode_cp (replicate 65540 0x61))))"
    by (simp only: encode_replicate_ascii replace_nul_replicate length_replicate)
  show ?thesis
    using mutf8_roundtrip [of "[0x61, 0x00, 0x20AC, 0x1F600]" "[]" "[]"]
      mutf8_roundtrip [of "replicate 65540 0x61" "[]" "[]"] v l w n valid_replicate_ascii [of 65540]
    by simp
qed

section \<open>Properties of \<open>dereference\<close>\<close>

lemma deref_utf8_never_pending: "deref_utf8 L info mk \<noteq> Inr None"
  by (simp add: deref_utf8_def split: info.splits option.splits ConstantInfo.splits)

lemma deref_utf8_mismatch:
  "(deref_utf8 L (Info1 a) mk = Inl KindMismatch) = (L a = None \<or> wrong_kind isinstance_UTF8 L a)"
  by (simp add: deref_utf8_def wrong_kind_def split: option.splits ConstantInfo.splits)

lemma deref_ref_pending:
  "(deref_ref L (Info2 a b) mk = Inr None) =
     (L a = None \<or> (present_as isinstance_Class L a \<and> L b = None))"
  by (simp add: deref_ref_def present_as_def split: option.splits)

lemma deref_ref_mismatch:
  "(deref_ref L (Info2 a b) mk = Inl KindMismatch) =
     (wrong_kind isinstance_Class L a \<or>
      (present_as isinstance_Class L a \<and> wrong_kind isinstance_NameAndType L b))"
  by (simp add: deref_ref_def present_as_def wrong_kind_def split: option.splits)

lemma deref_dynamic_pending:
  "(deref_dynamic L (Info2 a b) mk = Inr None) = (L b = None)"
  by (simp add: deref_dynamic_def split: option.splits)

lemma deref_dynamic_mismatch:
  "(deref_dynamic L (Info2 a b) mk = Inl KindMismatch) = wrong_kind isinstance_NameAndType L b"
  by (simp add: deref_dynamic_def wrong_kind_def split: option.splits)

lemma NameAndType_never_pending: "dereference cNameAndType L info \<noteq> Inr None"
  by (simp split: info.splits option.splits ConstantInfo.splits)

lemma NameAndType_mismatch:
  "(dereference cNameAndType L (Info2 a b) = Inl KindMismatch) =
     (L a = None \<or> wrong_kind isinstance_UTF8 L a \<or> L b = None \<or> wrong_kind isinstance_UTF8 L b)"
  by (simp add: wrong_kind_def split: option.splits ConstantInfo.splits)

lemma MethodHandle_pending:
  "(dereference cMethodHandle L (Info2 a b) = Inr None) = (L b = None)"
  by (simp split: option.splits)

lemma read_cls_Deferred:
  assumes "read_cls cl buffer = Inr (Deferred info, rest)"
  shows "(cl \<in> {cClass, cString, cMethodType, cModule, cPackage} \<and> (\<exists>a. info = Info1 a)) \<or>
         (cl \<in> {cNameAndType, cFieldRef, cMethodRef, cInterfaceMethodRef, cDynamic,
                 cInvokeDynamic, cMethodHandle} \<and> (\<exists>a b. info = Info2 a b))"
  using assms
  by (cases cl) (auto simp: UTF8_read_def split: sum.splits prod.splits if_splits)


lemma utf8_classes_outcomes:
  assumes "cl \<in> {cClass, cString, cMethodType, cModule, cPackage}"
  shows "dereference cl L (Info1 a) \<noteq> Inr None \<and>
         (dereference cl L (Info1 a) = Inl KindMismatch) =
           (L a = None \<or> wrong_kind isinstance_UTF8 L a)"
  using assms by (auto simp: deref_utf8_never_pending deref_utf8_mismatch)

lemma NameAndType_outcomes:
  "dereference cNameAndType L (Info2 a b) \<noteq> Inr None \<and>
   (dereference cNameAndType L (Info2 a b) = Inl KindMismatch) =
     (L a = None \<or> wrong_kind isinstance_UTF8 L a \<or> L b = None \<or> wrong_kind isinstance_UTF8 L b)"
  using NameAndType_never_pending [of L "Info2 a b"] NameAndType_mismatch [of L a b] by blast

lemma ref_classes_outcomes:
  assumes "cl \<in> {cFieldRef, cMethodRef, cInterfaceMethodRef}"
  shows "(dereference cl L (Info2 a b) = Inr None) =
           (L a = None \<or> (present_as isinstance_Class L a \<and> L b = None)) \<and>
         (dereference cl L (Info2 a b) = Inl KindMismatch) =
           (wrong_kind isinstance_Class L a \<or>
            (present_as isinstance_Class L a \<and> wrong_kind isinstance_NameAndType L b))"
  using assms by (auto simp: deref_ref_pending deref_ref_mismatch)

lemma dynamic_classes_outcomes:
  assumes "cl \<in> {cDynamic, cInvokeDynamic}"
  shows "(dereference cl L (Info2 a b) = Inr None) = (L b = None) \<and>
         (dereference cl L (Info2 a b) = Inl KindMismatch) = wrong_kind isinstance_NameAndType L b"
  using assms by (auto simp: deref_dynamic_pending deref_dynamic_mismatch)

text \<open>
  C3 says that \<open>dereference\<close> returns \<open>None\<close> whenever a required referent is absent.
  \<open>Class.dereference\<close> on the info read from \<open>00 03\<close>, with nothing at index 3, raises
  the \<open>TypeError\<close> of a kind mismatch.
\<close>

theorem Class_dereference_counterexample:
  "read_cls cClass [0x00, 0x03] = Inr (Deferred (Info1 3), []) \<and>
   Map.empty (3::int) = (None :: ConstantInfo option) \<and>
   dereference cClass Map.empty (Info1 3) = Inl KindMismatch"
  by (simp add: unpack_H_def be_nat_def deref_utf8_def)

text \<open>
  C3, as the source has it, for the info a class's \<open>read\<close> returns and any map
  \<open>L\<close> from indices to constants.
  \<^item> \<open>Class\<close>, \<open>String\<close>, \<open>MethodType\<close>, \<open>Module\<close>, \<open>Package\<close> and \<open>NameAndType\<close>, whose
    referents are \<open>UTF8\<close> constants: \<open>dereference\<close> never returns \<open>None\<close>, and fails with a
    kind mismatch exactly when a required referent is absent or is no \<open>UTF8\<close> constant.
  \<^item> \<open>FieldRef\<close>, \<open>MethodRef\<close>, \<open>InterfaceMethodRef\<close>: the class referent is examined
    first, then the name-and-type referent; the first of them that is absent makes the
    result \<open>None\<close>, the first that is of the wrong class a kind mismatch.
  \<^item> \<open>Dynamic\<close>, \<open>InvokeDynamic\<close>: \<open>None\<close> exactly when the name-and-type referent is
    absent, a kind mismatch exactly when it is present and no \<open>NameAndType\<close>.
  \<^item> \<open>MethodHandle\<close>: \<open>None\<close> exactly when the referent is absent.
\<close>

theorem dereference_outcomes:
  assumes "read_cls cl buffer = Inr (Deferred info, rest)"
  shows "case info of
           Info1 a \<Rightarrow>
             cl \<in> {cClass, cString, cMethodType, cModule, cPackage} \<and>
             dereference cl L info \<noteq> Inr None \<and>
             (dereference cl L info = Inl KindMismatch) =
               (L a = None \<or> wrong_kind isinstance_UTF8 L a)
         | Info2 a b \<Rightarrow>
             (cl = cNameAndType \<and>
              dereference cl L info \<noteq> Inr None \<and>
              (dereference cl L info = Inl KindMismatch) =
                (L a = None \<or> wrong_kind isinstance_UTF8 L a \<or>
                 L b = None \<or> wrong_kind isinstance_UTF8 L b)) \<or>
             (cl \<in> {cFieldRef, cMethodRef, cInterfaceMethodRef} \<and>
              (dereference cl L info = Inr None) =
                (L a = None \<or> (present_as isinstance_Class L a \<and> L b = None)) \<and>
              (dereference cl L info = Inl KindMismatch) =
                (wrong_kind isinstance_Class L a \<or>
                 (present_as isinstance_Class L a \<and> wrong_kind isinstance_NameAndType L b))) \<or>
             (cl \<in> {cDynamic, cInvokeDynamic} \<and>
              (dereference cl L info = Inr None) = (L b = None) \<and>
              (dereference cl L info = Inl KindMismatch) = wrong_kind isinstance_NameAndType L b) \<or>
             (cl = cMethodHandle \<and>
              (dereference cl L info = Inr None) = (L b = None))"
proof -
  from read_cls_Deferred [OF assms] consider
    a where "cl \<in> {cClass, cString, cMethodType, cModule, cPackage}" "info = Info1 a"
    | a b where "cl = cNameAndType" "info = Info2 a b"
    | a b where "cl \<in> {cFieldRef, cMethodRef, cInterfaceMethodRef}" "info = Info2 a b"
    | a b where "cl \<in> {cDynamic, cInvokeDynamic}" "info = Info2 a b"
    | a b where "cl = cMethodHandle" "info = Info2 a b"
    by auto
  then show ?thesis
  proof cases
    case 1
    show ?thesis
      unfolding 1(2) info.case using 1(1) utf8_classes_outcomes [OF 1(1), of L a] by blast
  next
    case 2
    show ?thesis
      unfolding 2 info.case by (rule disjI1) (use NameAndType_outcomes [of L a b] in blast)
  next
    case 3
    show ?thesis
      unfolding 3(2) info.case
      by (rule disjI2, rule disjI1) (use 3(1) ref_classes_outcomes [OF 3(1), of L a b] in blast)
  next
    case 4
    show ?thesis
      unfolding 4(2) info.case
      by (rule disjI2, rule disjI2, rule disjI1)
         (use 4(1) dynamic_classes_outcomes [OF 4(1), of L a b] in blast)
  next
    case 5
    show ?thesis
      unfolding 5 info.case
      by (rule disjI2, rule disjI2, rule disjI2) (use MethodHandle_pending [of L a b] in blast)
  qed
qed

theorem dereference_outcomes_witness:
  "read_cls cFieldRef [0x00, 0x01, 0x00, 0x02] = Inr (Deferred (Info2 1 2), []) \<and>
   dereference cFieldRef [1 \<mapsto> Class [65]] (Info2 1 2) = Inr None \<and>
   dereference cFieldRef [1 \<mapsto> Class [65], 2 \<mapsto> UTF8 [66]] (Info2 1 2) = Inl KindMismatch \<and>
   read_cls cString [0x00, 0x01] = Inr (Deferred (Info1 1), []) \<and>
   dereference cString [1 \<mapsto> Class [65]] (Info1 1) = Inl KindMismatch"
proof -
  have h: "read_cls cFieldRef [0x00, 0x01, 0x00, 0x02] = Inr (Deferred (Info2 1 2), [])"
    by (simp add: unpack_HH_def be_nat_def)
  have g: "read_cls cString [0x00, 0x01] = Inr (Deferred (Info1 1), [])"
    by (simp add: unpack_H_def be_nat_def)
  show ?thesis
    using h g dereference_outcomes [OF h, of "[1 \<mapsto> Class [65]]"]
      dereference_outcomes [OF h, of "[1 \<mapsto> Class [65], 2 \<mapsto> UTF8 [66]]"]
      dereference_outcomes [OF g, of "[1 \<mapsto> Class [65]]"]
    by (simp add: present_as_def wrong_kind_def)
qed


section \<open>Properties of \<open>ConstantPool.read\<close>\<close>

lemma constant_map_eval:
  "constant_map 9 = Some cFieldRef" "constant_map 19 = Some cModule"
  "constant_map 1 = Some cUTF8" "constant_map 7 = Some cClass"
  by (simp_all add: constant_map_def CONSTANTS_def)

lemma read_loop_refuses:
  assumes "constant_map (unat t) = Some cl" and "version_gt (since cl) version"
    and "offset < constants_count"
  shows "read_loop version constants_count offset (t # buffer) pool uncomputed =
           Inl (VersionTooLow (unat t))"
  using assms by (subst read_loop.simps) simp

text \<open>
  C9: for every version and every tag byte of a class whose \<open>since\<close> exceeds the
  version, the first loop of \<open>ConstantPool.read\<close> fails with the \<open>ValueError\<close> of a
  version too low as soon as that tag is the next byte of an entry to read, whatever
  has been read before; in particular \<open>read\<close> fails so when the tag is that of the
  first entry.
\<close>

theorem read_refuses_newer_constants:
  assumes "constant_map (unat t) = Some cl" and "version_gt (since cl) version"
  shows "(offset < constants_count \<longrightarrow>
            read_loop version constants_count offset (t # buffer) pool uncomputed =
              Inl (VersionTooLow (unat t))) \<and>
         (1 < be_nat [hi, lo] \<longrightarrow>
            read version (hi # lo # t # buffer) = Some (Inl (VersionTooLow (unat t))))"
proof (intro conjI impI)
  assume "offset < constants_count"
  with assms show "read_loop version constants_count offset (t # buffer) pool uncomputed =
      Inl (VersionTooLow (unat t))"
    by (rule read_loop_refuses)
next
  assume "1 < be_nat [hi, lo]"
  then have "(1::int) < int (be_nat [hi, lo])" by simp
  from read_loop_refuses [OF assms this]
  show "read version (hi # lo # t # buffer) = Some (Inl (VersionTooLow (unat t)))"
    by (simp add: read_def unpack_H_def)
qed

theorem read_refuses_newer_constants_witness:
  "constant_map (unat (19 :: byte)) = Some cModule \<and> version_gt (since cModule) (52, 0) \<and>
   1 < be_nat [0x00, 0x02] \<and>
   read (52, 0) [0x00, 0x02, 19, 0x00, 0x01] = Some (Inl (VersionTooLow 19)) \<and>
   read_loop (52, 0) 3 2 [19, 0x00, 0x01] init [] = Inl (VersionTooLow 19)"
proof -
  have c: "constant_map (unat (19 :: byte)) = Some cModule"
    by (simp add: constant_map_eval)
  have v: "version_gt (since cModule) (52, 0)" by (simp add: version_gt_def)
  show ?thesis
    using read_refuses_newer_constants [OF c v, where offset = 2 and constants_count = 3
        and buffer = "[0x00, 0x01]" and pool = init and uncomputed = "[]"
        and hi = 0 and lo = 2] c v
    by (simp add: be_nat_def)
qed

lemma fixup_stuck_aux:
  assumes "fixup unc pool = Some r"
  shows "\<not> (unc \<noteq> [] \<and>
            (\<forall>x\<in>set unc. dereference (fst (snd x)) (forward_entries pool) (snd (snd x)) = Inr None))"
proof (rule fixup.raw_induct
    [where P = "\<lambda>unc pool r. \<not> (unc \<noteq> [] \<and>
            (\<forall>x\<in>set unc. dereference (fst (snd x)) (forward_entries pool) (snd (snd x)) = Inr None))",
     OF _ assms], goal_cases)
  case (1 fx unc pool r)
  note IH = "1"(1) and body = "1"(2)
  show ?case
  proof
    assume a: "unc \<noteq> [] \<and>
       (\<forall>x\<in>set unc. dereference (fst (snd x)) (forward_entries pool) (snd (snd x)) = Inr None)"
    then obtain h rest where unc: "unc = h # rest" by (cases unc) auto
    obtain offset cl info where h: "h = (offset, cl, info)" by (cases h)
    from a unc h have d: "dereference cl (forward_entries pool) info = Inr None" by simp
    from body unc h d have "fx (rest @ [(offset, cl, info)]) pool = Some r" by simp
    from IH [OF this] a unc h show False by auto
  qed
qed

lemma fixup_stuck:
  assumes "unc \<noteq> []"
    and "\<forall>x\<in>set unc. dereference (fst (snd x)) (forward_entries pool) (snd (snd x)) = Inr None"
  shows "fixup unc pool = None"
proof (cases "fixup unc pool")
  case None
  then show ?thesis .
next
  case (Some r)
  from fixup_stuck_aux [OF Some] assms show ?thesis by blast
qed

text \<open>
  C1 asks that \<open>ConstantPool.read\<close> terminate on every input and fail when a pass over
  the deferred entries resolves nothing. The source has no such test (its comment says
  so): on a pool whose only entry is a \<open>FieldRef\<close> that refers to index 1, itself, the
  second loop puts the entry back for ever, and \<open>read\<close> does not return.
\<close>

theorem read_self_reference_diverges:
  "read (52, 0) [0x00, 0x02, 0x09, 0x00, 0x01, 0x00, 0x01] = None"
proof -
  have l: "read_loop (52, 0) 2 1 [0x09, 0x00, 0x01, 0x00, 0x01] init [] =
             Inr (2, [], init, [(1, cFieldRef, Info2 1 1)])"
    apply (subst read_loop.simps)
    apply (simp add: constant_map_eval version_gt_def unpack_HH_def be_nat_def)
    apply (subst read_loop.simps)
    apply simp
    done
  have f: "fixup [(1, cFieldRef, Info2 1 1)] (init\<lparr>next_index := 2\<rparr>) = None"
    by (rule fixup_stuck) (simp_all add: init_def deref_ref_def)
  show ?thesis
    by (simp add: read_def unpack_H_def be_nat_def l f)
qed

section \<open>Properties of instruction blocks\<close>





end
